theory Spec2Isabelle
  imports Main
begin

section \<open>Python values, exceptions and list primitives\<close>

text \<open>
  The exceptions of the program.  \<open>InputError\<close> and \<open>PlugboardError\<close> are the classes of
  \<open>errorHandling.py\<close>; \<open>ValueError\<close>, \<open>IndexError\<close>, \<open>TypeError\<close>, \<open>AttributeError\<close> and
  \<open>ZeroDivisionError\<close> are Python's own.  The argument of a constructor tells the raise
  sites of one class apart (it stands for the message).
\<close>

datatype input_problem = OnlyLetters | TwoLetters | LettersDiffer | OneLetter | RingRange

datatype plugboard_problem = MaxReached | AlreadyAssigned char

datatype value_problem =
    TooManyLeads | BadPosition | OutOfOrder | MinRotors | RotorArgs | RotorCustomArgs
  | UnknownRotor | ReflectorArgs | ReflectorCustomArgs | UnknownReflector
  | NotchRepeat | NotchCount | MappingRepeat | NotInList

datatype error =
    InputError input_problem
  | PlugboardError plugboard_problem
  | ValueError value_problem
  | IndexError
  | TypeError
  | AttributeError
  | ZeroDivisionError

text \<open>
  The untyped arguments of the configuration surface: a string, an integer or \<open>None\<close>.
  A one-character Python string is a \<open>char\<close>.
\<close>

datatype pyval = PStr string | PInt int | PNone

text \<open>Sequencing that stops at the first exception.\<close>

fun bindE :: "error + 'a \<Rightarrow> ('a \<Rightarrow> error + 'b) \<Rightarrow> error + 'b" where
  "bindE (Inl e) f = Inl e"
| "bindE (Inr x) f = f x"

text \<open>A \<open>for\<close> loop over a list that threads a state and stops at the first exception.\<close>

fun for_loop :: "('i \<Rightarrow> 's \<Rightarrow> error + 's) \<Rightarrow> 'i list \<Rightarrow> 's \<Rightarrow> error + 's" where
  "for_loop body [] s = Inr s"
| "for_loop body (i # is) s = bindE (body i s) (for_loop body is)"

text \<open>
  The position that a Python index denotes in a sequence of \<open>len\<close> elements: \<open>-1\<close> is the
  last element, \<open>-len\<close> the first; there is none outside \<open>-len \<dots> len - 1\<close>.
\<close>

definition py_pos :: "nat \<Rightarrow> int \<Rightarrow> nat option" where
  "py_pos len i =
     (if 0 \<le> i \<and> i < int len then Some (nat i)
      else if - int len \<le> i \<and> i < 0 then Some (nat (int len + i))
      else None)"

text \<open>\<open>xs[i]\<close> and \<open>xs[i] = v\<close>; IndexError where the index denotes no position.\<close>

definition py_get :: "'a list \<Rightarrow> int \<Rightarrow> error + 'a" where
  "py_get xs i = (case py_pos (length xs) i of None \<Rightarrow> Inl IndexError | Some k \<Rightarrow> Inr (xs ! k))"

definition py_set :: "'a list \<Rightarrow> int \<Rightarrow> 'a \<Rightarrow> error + 'a list" where
  "py_set xs i v =
     (case py_pos (length xs) i of None \<Rightarrow> Inl IndexError | Some k \<Rightarrow> Inr (xs[k := v]))"

text \<open>\<open>xs.index(x)\<close>: the first position of \<open>x\<close>, ValueError when absent.\<close>

fun py_index :: "'a list \<Rightarrow> 'a \<Rightarrow> error + int" where
  "py_index [] x = Inl (ValueError NotInList)"
| "py_index (y # ys) x = (if y = x then Inr 0 else bindE (py_index ys x) (\<lambda>i. Inr (i + 1)))"

text \<open>\<open>len(v)\<close> of an untyped value.\<close>

fun py_len :: "pyval \<Rightarrow> error + nat" where
  "py_len (PStr s) = Inr (length s)"
| "py_len (PInt n) = Inl TypeError"
| "py_len PNone = Inl TypeError"

text \<open>\<open>s.split(' ')\<close>.\<close>

fun split_space :: "string \<Rightarrow> string list" where
  "split_space [] = [[]]"
| "split_space (c # cs) =
     (if c = CHR '' '' then [] # split_space cs
      else (case split_space cs of [] \<Rightarrow> [[c]] | w # ws \<Rightarrow> (c # w) # ws))"

subsection \<open>Characters\<close>

text \<open>
  \<open>[a-zA-Z]\<close>, \<open>[0-9]\<close>, \<open>str.upper\<close> and \<open>str.lower\<close> on the 8-bit characters of HOL: the
  ASCII letters change case, every other character is left as it is.
\<close>

definition ascii_uppercase :: string where
  "ascii_uppercase = ''ABCDEFGHIJKLMNOPQRSTUVWXYZ''"

definition ascii_lowercase :: string where
  "ascii_lowercase = ''abcdefghijklmnopqrstuvwxyz''"

definition is_upper :: "char \<Rightarrow> bool" where
  "is_upper c = (c \<in> set ascii_uppercase)"

definition is_lower :: "char \<Rightarrow> bool" where
  "is_lower c = (c \<in> set ascii_lowercase)"

definition is_letter :: "char \<Rightarrow> bool" where
  "is_letter c = (is_lower c \<or> is_upper c)"

definition is_digit :: "char \<Rightarrow> bool" where
  "is_digit c = (c \<in> set ''0123456789'')"

definition upper :: "char \<Rightarrow> char" where
  "upper c = (case map_of (zip ascii_lowercase ascii_uppercase) c of None \<Rightarrow> c | Some u \<Rightarrow> u)"

definition lower :: "char \<Rightarrow> char" where
  "lower c = (case map_of (zip ascii_uppercase ascii_lowercase) c of None \<Rightarrow> c | Some l \<Rightarrow> l)"

text \<open>\<open>int("0" + digits)\<close> and \<open>len(str(n))\<close> for a natural number.\<close>

definition digits_val :: "string \<Rightarrow> nat" where
  "digits_val ds = foldl (\<lambda>a d. 10 * a + ((of_char d :: nat) - 48)) 0 ds"

fun dec_len :: "nat \<Rightarrow> nat" where
  "dec_len n = (if n < 10 then 1 else 1 + dec_len (n div 10))"

declare dec_len.simps [simp del]

section \<open>tools.py\<close>

text \<open>
  \<open>positionLooper(inputNumber, base)\<close>.  Python's \<open>%\<close> is floor modulo, as \<open>mod\<close> on \<open>int\<close>
  is; with \<open>base = 0\<close> it raises ZeroDivisionError.
\<close>

definition py_mod :: "int \<Rightarrow> int \<Rightarrow> error + int" where
  "py_mod a b = (if b = 0 then Inl ZeroDivisionError else Inr (a mod b))"

definition positionLooper :: "int \<Rightarrow> int \<Rightarrow> error + int" where
  "positionLooper inputNumber base =
     (if inputNumber \<ge> 0 \<and> inputNumber \<le> base then Inr inputNumber
      else if inputNumber < 0 then bindE (py_mod inputNumber base) (\<lambda>m. Inr (m + 1))
      else bindE (py_mod inputNumber base) (\<lambda>m. Inr (m - 1)))"

section \<open>errorHandling.py\<close>

text \<open>
  The decorator \<open>inputValidator(component, element)\<close>, one definition for each component.
  Each returns the cleaned input that the decorated function receives.
\<close>

definition inputValidator_inputElement :: "string \<Rightarrow> error + string" where
  "inputValidator_inputElement currentInput =
     (let lettersClean = filter is_letter currentInput;
          amountLettersInput = length currentInput;
          amountLettersClean = length lettersClean
      in if amountLettersInput > amountLettersClean then Inl (InputError OnlyLetters)
         else if amountLettersClean \<noteq> 2 then Inl (InputError TwoLetters)
         else if lettersClean ! 0 = lettersClean ! 1 then Inl (InputError LettersDiffer)
         else Inr (map lower lettersClean))"

text \<open>The cleaned input has exactly one letter here; it is passed on as that character.\<close>

definition inputValidator_encodingElement :: "string \<Rightarrow> error + char" where
  "inputValidator_encodingElement currentInput =
     (let lettersClean = filter is_letter currentInput;
          amountLettersInput = length currentInput;
          amountLettersClean = length lettersClean
      in if amountLettersInput > amountLettersClean then Inl (InputError OnlyLetters)
         else if amountLettersClean \<noteq> 1 then Inl (InputError OneLetter)
         else Inr (lower (lettersClean ! 0)))"

text \<open>
  \<open>str(currentInput)\<close> is the decimal numeral of an integer (with a leading \<open>-\<close> when
  negative), the string itself, or \<open>None\<close> (four characters, no digit).
\<close>

definition inputValidator_ringSetting :: "pyval \<Rightarrow> error + int" where
  "inputValidator_ringSetting currentInput =
     (let inputClean =
            (case currentInput of
               PInt n \<Rightarrow> nat \<bar>n\<bar>
             | PStr s \<Rightarrow> digits_val (filter is_digit s)
             | PNone \<Rightarrow> 0);
          amountCharsInput =
            (case currentInput of
               PInt n \<Rightarrow> dec_len (nat \<bar>n\<bar>) + (if n < 0 then 1 else 0)
             | PStr s \<Rightarrow> length s
             | PNone \<Rightarrow> 4);
          amountCharsClean = dec_len inputClean
      in if inputClean < 1 \<or> inputClean > 26 \<or> amountCharsInput > amountCharsClean
         then Inl (InputError RingRange)
         else Inr (int inputClean))"

text \<open>\<open>re.findall\<close> on a value that is not a string raises TypeError.\<close>

fun as_str :: "pyval \<Rightarrow> error + string" where
  "as_str (PStr s) = Inr s"
| "as_str (PInt n) = Inl TypeError"
| "as_str PNone = Inl TypeError"

section \<open>enigma.py: PlugLead and Plugboard\<close>

record plugLead =
  lettersList :: string

definition PlugLead :: "string \<Rightarrow> error + plugLead" where
  "PlugLead currentInput =
     bindE (inputValidator_inputElement currentInput)
       (\<lambda>letters. Inr \<lparr>lettersList = map lower letters\<rparr>)"

definition PlugLead_encode :: "plugLead \<Rightarrow> string \<Rightarrow> error + char" where
  "PlugLead_encode self currentInput =
     bindE (inputValidator_encodingElement currentInput)
       (\<lambda>letterInput.
          if letterInput \<notin> set (lettersList self) then Inr (upper letterInput)
          else bindE (py_get (filter (\<lambda>x. x \<noteq> letterInput) (lettersList self)) (- 1))
                 (\<lambda>c. Inr (upper c)))"

record plugboard =
  plugLeadsLetters :: string
  plugLeads :: "plugLead list"
  numPlugLeads :: int

definition Plugboard :: "int \<Rightarrow> error + plugboard" where
  "Plugboard n =
     (if n > 13 then Inl (ValueError TooManyLeads)
      else Inr \<lparr>plugLeadsLetters = [], plugLeads = [], numPlugLeads = n\<rparr>)"

text \<open>
  \<open>Plugboard.add\<close>: the loop over the lead's letters raises at the first letter that is
  already in \<open>plugLeadsLetters\<close>, before anything is stored.
\<close>

definition Plugboard_add :: "plugboard \<Rightarrow> plugLead \<Rightarrow> error + plugboard" where
  "Plugboard_add self lead =
     (if int (length (plugLeads self)) = numPlugLeads self
      then Inl (PlugboardError MaxReached)
      else (case find (\<lambda>x. x \<in> set (plugLeadsLetters self)) (lettersList lead) of
              Some x \<Rightarrow> Inl (PlugboardError (AlreadyAssigned (upper x)))
            | None \<Rightarrow>
                Inr (self\<lparr>plugLeadsLetters := plugLeadsLetters self @ lettersList lead,
                          plugLeads := plugLeads self @ [lead]\<rparr>)))"

definition Plugboard_encode :: "plugboard \<Rightarrow> string \<Rightarrow> error + char" where
  "Plugboard_encode self currentInput =
     bindE (inputValidator_encodingElement currentInput)
       (\<lambda>letterInput.
          if letterInput \<in> set (plugLeadsLetters self)
          then bindE (py_index (plugLeadsLetters self) letterInput)
                 (\<lambda>i. bindE (py_get (plugLeads self) (i div 2))
                   (\<lambda>plugBoard. PlugLead_encode plugBoard [letterInput]))
          else Inr (upper letterInput))"

section \<open>enigma.py: Rotor\<close>

text \<open>
  One record for every rotor and reflector (all are instances of the class \<open>Rotor\<close>).
  \<open>ringSetting\<close>, \<open>initialPos\<close> and \<open>currentPos\<close> are \<open>None\<close> in a reflector.  An entry
  of \<open>notch\<close> is a letter, or \<open>None\<close> for the \<open>False\<close> of the notch-less classes.
  \<open>genericMapping\<close> is the same list in every instance, hence a constant.
\<close>

record rotor =
  rotorType :: string
  name :: string
  mapping :: string
  ringSetting :: "int option"
  initialPos :: "int option"
  currentPos :: "int option"
  notch :: "char option list"

definition genericMapping :: string where
  "genericMapping = ''ABCDEFGHIJKLMNOPQRSTUVWXYZ''"

text \<open>\<open>self.genericMapping[pos]\<close> for a position attribute, which may be \<open>None\<close>.\<close>

definition generic_at :: "int option \<Rightarrow> error + char" where
  "generic_at pos = (case pos of None \<Rightarrow> Inl TypeError | Some p \<Rightarrow> py_get genericMapping p)"

definition set_ring_setting :: "pyval \<Rightarrow> error + int" where
  "set_ring_setting currentInput =
     bindE (inputValidator_ringSetting currentInput) (\<lambda>ringSetting. Inr (ringSetting - 1))"

definition set_initial_pos :: "pyval \<Rightarrow> error + int" where
  "set_initial_pos currentInput =
     bindE (as_str currentInput) (\<lambda>s.
     bindE (inputValidator_encodingElement s) (\<lambda>initialPos.
       py_index genericMapping (upper initialPos)))"

text \<open>
  \<open>Rotor.__init__\<close>.  The reflector classes pass \<open>None\<close> for the ring setting and the
  position, which are stored as they are.  \<open>mapping\<close> and \<open>notch\<close> are set by the subclass
  afterwards.
\<close>

definition Rotor_init :: "pyval \<Rightarrow> pyval \<Rightarrow> string \<Rightarrow> string \<Rightarrow> error + rotor" where
  "Rotor_init ringSetting0 initialPos0 rotorType0 name0 =
     (if rotorType0 = ''reflector''
      then Inr \<lparr>rotorType = rotorType0, name = name0, mapping = [],
                ringSetting = None, initialPos = None, currentPos = None, notch = []\<rparr>
      else bindE (set_ring_setting ringSetting0) (\<lambda>rs.
           bindE (set_initial_pos initialPos0) (\<lambda>ip.
           bindE (set_initial_pos initialPos0) (\<lambda>cp.
             Inr \<lparr>rotorType = rotorType0, name = name0, mapping = [],
                  ringSetting = Some rs, initialPos = Some ip, currentPos = Some cp,
                  notch = []\<rparr>))))"

definition Rotor_encode :: "rotor \<Rightarrow> string \<Rightarrow> string \<Rightarrow> error + char" where
  "Rotor_encode self currentInput direction =
     bindE (inputValidator_encodingElement currentInput) (\<lambda>letterInput.
       if rotorType self = ''reflector''
       then bindE (py_index genericMapping (upper letterInput)) (\<lambda>i.
            bindE (py_get (mapping self) i) (\<lambda>c. Inr (lower c)))
       else
         bindE (generic_at (currentPos self)) (\<lambda>letterPos.
         bindE (case (currentPos self, ringSetting self) of
                  (Some p, Some rs) \<Rightarrow> Inr (p - rs)
                | _ \<Rightarrow> Inl TypeError) (\<lambda>offset.
         bindE (py_index genericMapping (upper letterInput)) (\<lambda>inputIndex.
         bindE (positionLooper (inputIndex + offset) 25) (\<lambda>inputIndexOffset.
         bindE (py_get genericMapping inputIndexOffset) (\<lambda>letterInputOffset.
         bindE (if direction = ''right''
                then bindE (py_index genericMapping letterInputOffset) (\<lambda>index.
                       py_get (mapping self) index)
                else bindE (py_index (mapping self) letterInputOffset) (\<lambda>index.
                       py_get genericMapping index)) (\<lambda>letter.
         bindE (py_index genericMapping letter) (\<lambda>letterIndex.
         bindE (positionLooper (letterIndex - offset) 25) (\<lambda>outputIndexOffset.
         bindE (py_get genericMapping outputIndexOffset) (\<lambda>returnLetter.
           Inr (upper returnLetter)))))))))))"

subsection \<open>The catalog\<close>

definition catalog_rotor ::
  "string \<Rightarrow> string \<Rightarrow> char option list \<Rightarrow> string \<Rightarrow> pyval \<Rightarrow> pyval \<Rightarrow> error + rotor" where
  "catalog_rotor rotorType0 name0 notch0 mapping0 ringSetting0 initialPos0 =
     bindE (Rotor_init ringSetting0 initialPos0 rotorType0 name0)
       (\<lambda>self. Inr (self\<lparr>notch := notch0, mapping := mapping0\<rparr>))"

definition RotorI :: "pyval \<Rightarrow> pyval \<Rightarrow> error + rotor" where
  "RotorI = catalog_rotor ''notchrotor'' ''I'' [Some CHR ''Q''] ''EKMFLGDQVZNTOWYHXUSPAIBRCJ''"

definition RotorII :: "pyval \<Rightarrow> pyval \<Rightarrow> error + rotor" where
  "RotorII = catalog_rotor ''notchrotor'' ''II'' [Some CHR ''E''] ''AJDKSIRUXBLHWTMCQGZNPYFVOE''"

definition RotorIII :: "pyval \<Rightarrow> pyval \<Rightarrow> error + rotor" where
  "RotorIII = catalog_rotor ''notchrotor'' ''III'' [Some CHR ''V''] ''BDFHJLCPRTXVZNYEIWGAKMUSQO''"

definition RotorIV :: "pyval \<Rightarrow> pyval \<Rightarrow> error + rotor" where
  "RotorIV = catalog_rotor ''notchrotor'' ''IV'' [Some CHR ''J''] ''ESOVPZJAYQUIRHXLNFTGKDCMWB''"

definition RotorV :: "pyval \<Rightarrow> pyval \<Rightarrow> error + rotor" where
  "RotorV = catalog_rotor ''notchrotor'' ''V'' [Some CHR ''Z''] ''VZBRGITYUPSDNHLXAWMJQOFECK''"

definition RotorBeta :: "pyval \<Rightarrow> pyval \<Rightarrow> error + rotor" where
  "RotorBeta = catalog_rotor ''notchlessrotor'' ''beta'' [None] ''LEYJVCNIXWPBQMDRTAKZGFUHOS''"

definition RotorGamma :: "pyval \<Rightarrow> pyval \<Rightarrow> error + rotor" where
  "RotorGamma = catalog_rotor ''notchlessrotor'' ''gamma'' [None] ''FSOKANUERHMBTIYCWLQPZXVGJD''"

definition RotorVI :: "pyval \<Rightarrow> pyval \<Rightarrow> error + rotor" where
  "RotorVI = catalog_rotor ''notchrotor'' ''VI'' [Some CHR ''Z'', Some CHR ''M'']
               ''JPGVOUMFYQBENHZRDKASXLICTW''"

definition RotorVII :: "pyval \<Rightarrow> pyval \<Rightarrow> error + rotor" where
  "RotorVII = catalog_rotor ''notchrotor'' ''VII'' [Some CHR ''Z'', Some CHR ''M'']
                ''NZJHGRCXMYSWBOUFAIVLPEKQDT''"

definition RotorVIII :: "pyval \<Rightarrow> pyval \<Rightarrow> error + rotor" where
  "RotorVIII = catalog_rotor ''notchrotor'' ''VIII'' [Some CHR ''Z'', Some CHR ''M'']
                 ''FKQHTLXOCBJSPDZRAMEWNIUYGV''"

text \<open>
  \<open>sorted(elementsCount.values())[-1] > 1\<close>: the largest number of occurrences of a
  character exceeds one, that is, a character repeats; on the empty string the index
  \<open>[-1]\<close> raises IndexError.
\<close>

definition repeats_check :: "string \<Rightarrow> value_problem \<Rightarrow> error + unit" where
  "repeats_check s problem =
     (if s = [] then Inl IndexError
      else if \<not> distinct s then Inl (ValueError problem)
      else Inr ())"

definition RotorCustom :: "pyval \<Rightarrow> pyval \<Rightarrow> string \<Rightarrow> string option \<Rightarrow> error + rotor" where
  "RotorCustom ringSetting0 initialPos0 mapping0 notches =
     bindE (case notches of
              None \<Rightarrow> Inr (''notchlessrotor'', [None])
            | Some ns \<Rightarrow>
                bindE (repeats_check ns NotchRepeat) (\<lambda>_.
                  if length ns > 26 then Inl (ValueError NotchCount)
                  else Inr (''notchrotor'', map Some ns))) (\<lambda>(rotorType0, itsNotch).
     bindE (Rotor_init ringSetting0 initialPos0 rotorType0 ''custom'') (\<lambda>self.
     bindE (repeats_check mapping0 MappingRepeat) (\<lambda>_.
       Inr (self\<lparr>notch := itsNotch, mapping := mapping0\<rparr>))))"

definition catalog_reflector :: "string \<Rightarrow> string \<Rightarrow> error + rotor" where
  "catalog_reflector name0 mapping0 =
     bindE (Rotor_init PNone PNone ''reflector'' name0)
       (\<lambda>self. Inr (self\<lparr>notch := [None], mapping := mapping0\<rparr>))"

definition ReflectorA :: "error + rotor" where
  "ReflectorA = catalog_reflector ''A'' ''EJMZALYXVBWFCRQUONTSPIKHGD''"

definition ReflectorB :: "error + rotor" where
  "ReflectorB = catalog_reflector ''B'' ''YRUHQSLDPXNGOKMIEBFZCWVJAT''"

definition ReflectorC :: "error + rotor" where
  "ReflectorC = catalog_reflector ''C'' ''FVPJIAOYEDRZXWGCTKUQSBNMHL''"

definition ReflectorBThin :: "error + rotor" where
  "ReflectorBThin = catalog_reflector ''BThin'' ''ENKQAUYWJICOPBLMDXZVFTHRGS''"

definition ReflectorCThin :: "error + rotor" where
  "ReflectorCThin = catalog_reflector ''BThin'' ''ENKQAUYWJICOPBLMDXZVFTHRGS''"

definition ReflectorCustom :: "string \<Rightarrow> error + rotor" where
  "ReflectorCustom mapping0 =
     bindE (Rotor_init PNone PNone ''reflector'' ''custom'') (\<lambda>self.
     bindE (repeats_check mapping0 MappingRepeat) (\<lambda>_.
       Inr (self\<lparr>notch := [None], mapping := mapping0\<rparr>)))"

section \<open>enigma.py: EnigmaMachine\<close>

text \<open>
  The rotors of \<open>rotorsList\<close> are separate objects (as \<open>setup\<close> builds them), so the list
  holds their states.  A call that raises returns the exception only.
\<close>

record enigma =
  rotorsList :: "rotor list"
  plugBoard :: "plugboard option"
  reflector :: "rotor option"

definition EnigmaMachine :: enigma where
  "EnigmaMachine = \<lparr>rotorsList = [], plugBoard = None, reflector = None\<rparr>"

text \<open>\<open>xs.insert(i, x)\<close> for \<open>0 \<le> i\<close>: past the end it appends.\<close>

definition py_insert :: "'a list \<Rightarrow> nat \<Rightarrow> 'a \<Rightarrow> 'a list" where
  "py_insert xs i x = take i xs @ x # drop i xs"

definition addRotor :: "enigma \<Rightarrow> rotor \<Rightarrow> pyval \<Rightarrow> error + enigma" where
  "addRotor self rotorObject order0 =
     (case order0 of
        PInt order1 \<Rightarrow>
          if order1 < 1 then Inl (ValueError BadPosition)
          else if order1 - 1 > int (length (rotorsList self)) then Inl (ValueError OutOfOrder)
          else Inr (self\<lparr>rotorsList := py_insert (rotorsList self) (nat (order1 - 1)) rotorObject\<rparr>)
      | _ \<Rightarrow> Inl (ValueError BadPosition))"

definition addPlugBoard :: "enigma \<Rightarrow> plugboard \<Rightarrow> enigma" where
  "addPlugBoard self plugBoardObject = self\<lparr>plugBoard := Some plugBoardObject\<rparr>"

definition addReflector :: "enigma \<Rightarrow> rotor \<Rightarrow> enigma" where
  "addReflector self reflectorObject = self\<lparr>reflector := Some reflectorObject\<rparr>"

subsection \<open>Stepping\<close>

text \<open>
  \<open>notchlessToTheRight\<close>: the entry for \<open>x\<close> in \<open>range(1, numRotors + 1)\<close> is \<open>False\<close> for
  \<open>x = 1\<close> and otherwise compares the type of \<open>rotorsList[-x+1]\<close>, the rotor at position
  \<open>numRotors - (x - 1)\<close>, with the string \<open>notchless\<close>.
\<close>

definition notchlessToTheRight :: "rotor list \<Rightarrow> bool list" where
  "notchlessToTheRight rs =
     map (\<lambda>x. if x = 1 then False
              else rotorType (rs ! (length rs - (x - 1))) = ''notchless'')
       [1 ..< length rs + 1]"

text \<open>
  \<open>rotorsList[i].currentPos = positionLooper(rotorsList[i].currentPos + 1, 25)\<close> followed
  by \<open>hasTurned[i] = True\<close>.
\<close>

definition turn_at :: "int \<Rightarrow> rotor list \<times> bool list \<Rightarrow> error + rotor list \<times> bool list" where
  "turn_at i st =
     (case st of (rs, hasTurned) \<Rightarrow>
        bindE (py_get rs i) (\<lambda>rot.
        bindE (case currentPos rot of None \<Rightarrow> Inl TypeError
               | Some p \<Rightarrow> positionLooper (p + 1) 25) (\<lambda>updatedPos.
        bindE (py_set rs i (rot\<lparr>currentPos := Some updatedPos\<rparr>)) (\<lambda>rs'.
        bindE (py_set hasTurned i True) (\<lambda>hasTurned'.
          Inr (rs', hasTurned'))))))"

text \<open>The body of the loop \<open>for r in range(1, numRotors + 1)\<close>.\<close>

definition turn_body ::
  "int option list \<Rightarrow> bool list \<Rightarrow> nat \<Rightarrow> rotor list \<times> bool list
     \<Rightarrow> error + rotor list \<times> bool list" where
  "turn_body initialPositions nlr r st =
     (case st of (rs, hasTurned) \<Rightarrow>
        bindE (py_get initialPositions (- int r)) (\<lambda>currentPos0.
        bindE (py_get rs (- int r)) (\<lambda>rot.
        bindE (generic_at currentPos0) (\<lambda>letterCurrentPos.
          if Some letterCurrentPos \<in> set (notch rot) \<and> r \<in> {1, 2}
          then bindE (py_get nlr (- int r)) (\<lambda>nl.
                 if \<not> nl
                 then bindE (bindE (py_get hasTurned (- int r)) (\<lambda>ht.
                               if \<not> ht then turn_at (- int r) st else Inr st)) (\<lambda>st1.
                        if r \<le> 2 then turn_at (- int r - 1) st1 else Inr st1)
                 else Inr st)
          else Inr st))))"

text \<open>
  The stepping part of \<open>fullEncode\<close>.  The string \<open>lettersPrint\<close> is built whether or not
  it is printed, and reads \<open>genericMapping[currentPos]\<close> of every rotor.
\<close>

definition turnRotors :: "rotor list \<Rightarrow> error + rotor list" where
  "turnRotors rs =
     (let numRotors = length rs;
          initialPositions = map currentPos rs;
          hasTurned = replicate numRotors False
      in bindE (for_loop (\<lambda>x u. bindE (generic_at (currentPos x)) (\<lambda>_. Inr u)) rs ()) (\<lambda>_.
         bindE (for_loop (turn_body initialPositions (notchlessToTheRight rs))
                  [1 ..< numRotors + 1] (rs, hasTurned)) (\<lambda>st.
         bindE (py_get (snd st) (- 1)) (\<lambda>ht.
           if \<not> ht
           then bindE (py_get (fst st) (- 1)) (\<lambda>rot.
                bindE (case currentPos rot of None \<Rightarrow> Inl TypeError
                       | Some p \<Rightarrow> positionLooper (p + 1) 25) (\<lambda>updatedPos.
                  py_set (fst st) (- 1) (rot\<lparr>currentPos := Some updatedPos\<rparr>)))
           else Inr (fst st)))))"

subsection \<open>The signal path\<close>

definition fullEncode :: "enigma \<Rightarrow> string \<Rightarrow> error + string \<times> enigma" where
  "fullEncode self currentInput =
     bindE (inputValidator_encodingElement currentInput) (\<lambda>inputLetter.
     bindE (case plugBoard self of None \<Rightarrow> Inl AttributeError
            | Some pb \<Rightarrow> Plugboard_encode pb [inputLetter]) (\<lambda>e0.
     bindE (turnRotors (rotorsList self)) (\<lambda>rs.
     bindE (for_loop (\<lambda>r e. Rotor_encode r [e] ''right'') (rev rs) e0) (\<lambda>e1.
     bindE (case reflector self of None \<Rightarrow> Inl AttributeError
            | Some rf \<Rightarrow> Rotor_encode rf [e1] ''left'') (\<lambda>e2.
     bindE (for_loop (\<lambda>r e. Rotor_encode r [e] ''left'') rs e2) (\<lambda>e3.
     bindE (case plugBoard self of None \<Rightarrow> Inl AttributeError
            | Some pb \<Rightarrow> Plugboard_encode pb [e3]) (\<lambda>e4.
       Inr ([upper e4], self\<lparr>rotorsList := rs\<rparr>))))))))"

text \<open>\<open>serialEncode\<close>: the accumulator is the string encoded so far and the machine.\<close>

definition serialEncode :: "enigma \<Rightarrow> string \<Rightarrow> error + string \<times> enigma" where
  "serialEncode self inputString =
     bindE (for_loop (\<lambda>s (encodedString, m).
                        bindE (fullEncode m [s]) (\<lambda>(encoded_s, m').
                          Inr (encodedString @ encoded_s, m')))
              inputString ([], self)) (\<lambda>(encodedString, m).
       Inr (map upper encodedString, m))"

subsection \<open>The method \<open>setup\<close>\<close>

definition validRotors :: "string list" where
  "validRotors = [''RotorI'', ''RotorII'', ''RotorIII'', ''RotorIV'', ''RotorV'', ''RotorBeta'',
     ''RotorGamma'', ''RotorVI'', ''RotorVII'', ''RotorVIII'', ''RotorCustom'']"

definition validReflectors :: "string list" where
  "validReflectors = [''ReflectorA'', ''ReflectorB'', ''ReflectorC'', ''ReflectorBThin'',
     ''ReflectorCThin'', ''ReflectorCustom'']"

text \<open>\<open>globals()[name]\<close> for a catalog rotor and for a catalog reflector.\<close>

definition rotor_class :: "string \<Rightarrow> pyval \<Rightarrow> pyval \<Rightarrow> error + rotor" where
  "rotor_class n =
     (if n = ''RotorI'' then RotorI else if n = ''RotorII'' then RotorII
      else if n = ''RotorIII'' then RotorIII else if n = ''RotorIV'' then RotorIV
      else if n = ''RotorV'' then RotorV else if n = ''RotorBeta'' then RotorBeta
      else if n = ''RotorGamma'' then RotorGamma else if n = ''RotorVI'' then RotorVI
      else if n = ''RotorVII'' then RotorVII else RotorVIII)"

definition reflector_class :: "string \<Rightarrow> error + rotor" where
  "reflector_class n =
     (if n = ''ReflectorA'' then ReflectorA else if n = ''ReflectorB'' then ReflectorB
      else if n = ''ReflectorC'' then ReflectorC
      else if n = ''ReflectorBThin'' then ReflectorBThin else ReflectorCThin)"

text \<open>\<open>v in names\<close> for an untyped value and a list of strings.\<close>

fun in_names :: "pyval \<Rightarrow> string list \<Rightarrow> bool" where
  "in_names (PStr s) names = (s \<in> set names)"
| "in_names (PInt n) names = False"
| "in_names PNone names = False"

text \<open>The notches argument of \<open>RotorCustom\<close>: iterating over an integer raises TypeError.\<close>

fun as_notches :: "pyval \<Rightarrow> error + string option" where
  "as_notches (PStr s) = Inr (Some s)"
| "as_notches PNone = Inr None"
| "as_notches (PInt n) = Inl TypeError"

text \<open>
  The body of the loop \<open>for i in rotors\<close> of \<open>setup\<close>.  The message of the first error
  reads \<open>i[0]\<close>, which raises IndexError on an empty list.
\<close>

definition setup_rotor :: "pyval list \<Rightarrow> enigma \<Rightarrow> error + enigma" where
  "setup_rotor i self =
     (if length i < 4 then (if i = [] then Inl IndexError else Inl (ValueError RotorArgs))
      else if in_names (i ! 0) validRotors
      then if i ! 0 = PStr ''RotorCustom''
           then bindE (if length i = 5 then bindE (py_len (i ! 4)) (\<lambda>n. Inr (n = 26))
                       else Inr False) (\<lambda>five.
                  if five
                  then bindE (as_str (i ! 4)) (\<lambda>m.
                       bindE (RotorCustom (i ! 1) (i ! 2) m None) (\<lambda>rotor.
                         addRotor self rotor (i ! 3)))
                  else bindE (if length i = 6 then bindE (py_len (i ! 4)) (\<lambda>n. Inr (n = 26))
                              else Inr False) (\<lambda>six.
                         if six
                         then bindE (as_str (i ! 4)) (\<lambda>m.
                              bindE (as_notches (i ! 5)) (\<lambda>ns.
                              bindE (RotorCustom (i ! 1) (i ! 2) m ns) (\<lambda>rotor.
                                addRotor self rotor (i ! 3))))
                         else Inl (ValueError RotorCustomArgs)))
           else if length i = 4
                then bindE (as_str (i ! 0)) (\<lambda>n.
                     bindE (rotor_class n (i ! 1) (i ! 2)) (\<lambda>rotor.
                       addRotor self rotor (i ! 3)))
                else Inl (ValueError RotorArgs)
      else Inl (ValueError UnknownRotor))"

text \<open>The reflector argument of \<open>setup\<close>: a name, or a list.\<close>

datatype reflector_arg = RName pyval | RList "pyval list"

text \<open>
  A catalog reflector takes no argument and \<open>ReflectorCustom\<close> takes one; a call with the
  wrong number of arguments raises TypeError.
\<close>

definition setup_reflector :: "reflector_arg \<Rightarrow> error + rotor" where
  "setup_reflector reflector0 =
     (case reflector0 of
        RList l \<Rightarrow>
          if length l \<noteq> 2 then Inl (ValueError ReflectorArgs)
          else bindE (if in_names (l ! 0) validReflectors
                      then bindE (py_len (l ! 1)) (\<lambda>n. Inr (n = 26)) else Inr False) (\<lambda>ok.
                 if ok
                 then if l ! 0 = PStr ''ReflectorCustom''
                      then bindE (as_str (l ! 1)) ReflectorCustom
                      else Inl TypeError
                 else Inl (ValueError ReflectorCustomArgs))
      | RName v \<Rightarrow>
          if in_names v validReflectors
          then if v = PStr ''ReflectorCustom'' then Inl TypeError
               else bindE (as_str v) reflector_class
          else Inl (ValueError UnknownReflector))"

definition setup_machine ::
  "enigma \<Rightarrow> pyval list list \<Rightarrow> reflector_arg \<Rightarrow> string option \<Rightarrow> int \<Rightarrow> error + enigma" where
  "setup_machine self rotors reflector0 plugleads numPlugLeads0 =
     bindE (Plugboard numPlugLeads0) (\<lambda>myPlugboard.
     bindE (case plugleads of
              None \<Rightarrow> Inr myPlugboard
            | Some s \<Rightarrow>
                for_loop (\<lambda>i pb. bindE (PlugLead i) (Plugboard_add pb))
                  (split_space s) myPlugboard) (\<lambda>pb.
     bindE (if length rotors < 3 then Inl (ValueError MinRotors) else Inr ()) (\<lambda>_.
     bindE (for_loop setup_rotor rotors (addPlugBoard self pb)) (\<lambda>self1.
     bindE (setup_reflector reflector0) (\<lambda>reflector1.
       Inr (addReflector self1 reflector1))))))"

section \<open>Notions used in the statements\<close>

text \<open>A rotor advanced by one position, with wrap-around from 25 to 0.\<close>

definition stepped :: "rotor \<Rightarrow> rotor" where
  "stepped r = r\<lparr>currentPos := map_option (\<lambda>p. (p + 1) mod 26) (currentPos r)\<rparr>"

text \<open>The letter of the generic alphabet at the rotor's position is in its notch list.\<close>

definition at_notch :: "rotor \<Rightarrow> bool" where
  "at_notch r =
     (case currentPos r of None \<Rightarrow> False
      | Some p \<Rightarrow> Some (genericMapping ! nat (p mod 26)) \<in> set (notch r))"

text \<open>
  The positions at which \<open>genericMapping[currentPos]\<close> does not raise: an integer from
  \<open>-26\<close> to \<open>25\<close>.
\<close>

definition valid_pos :: "rotor \<Rightarrow> bool" where
  "valid_pos r = (case currentPos r of None \<Rightarrow> False | Some p \<Rightarrow> - 26 \<le> p \<and> p \<le> 25)"

text \<open>
  What the specification requires of a reflector wiring: 26 letters, no letter mapped to
  itself, and the mapping its own inverse.
\<close>

definition fixed_point_free_involution :: "string \<Rightarrow> bool" where
  "fixed_point_free_involution m =
     (length m = 26 \<and>
      list_all (\<lambda>i. m ! i \<noteq> genericMapping ! i \<and>
                     list_ex (\<lambda>j. m ! i = genericMapping ! j \<and> m ! j = genericMapping ! i)
                       [0 ..< 26])
        [0 ..< 26])"

text \<open>
  A rotor as \<open>RotorCustom\<close> builds it from the alphabet as wiring and no notches, at a
  position and ring setting from 0 to 25.
\<close>

definition identity_notchless :: "rotor \<Rightarrow> bool" where
  "identity_notchless r =
     (rotorType r = ''notchlessrotor'' \<and> mapping r = genericMapping \<and> notch r = [None] \<and>
      (case currentPos r of None \<Rightarrow> False | Some p \<Rightarrow> 0 \<le> p \<and> p \<le> 25) \<and>
      (case ringSetting r of None \<Rightarrow> False | Some q \<Rightarrow> 0 \<le> q \<and> q \<le> 25))"

text \<open>
  A lead with two different lower-case letters, and a board as \<open>add\<close> builds it from such
  leads: the letter list is the leads' letters in order, without repeats.
\<close>

definition lead_ok :: "plugLead \<Rightarrow> bool" where
  "lead_ok l =
     (length (lettersList l) = 2 \<and> distinct (lettersList l) \<and> list_all is_lower (lettersList l))"

definition plugboard_ok :: "plugboard \<Rightarrow> bool" where
  "plugboard_ok pb =
     (plugLeadsLetters pb = concat (map lettersList (plugLeads pb)) \<and>
      distinct (plugLeadsLetters pb) \<and> list_all lead_ok (plugLeads pb))"

text \<open>
  A rotor whose wiring is a permutation of the alphabet, at a position and ring setting
  from 0 to 25; a reflector whose wiring is 26 letters; a machine of at least three such
  rotors with such a reflector and a well-formed plugboard.
\<close>

definition rotor_ok :: "rotor \<Rightarrow> bool" where
  "rotor_ok r =
     (rotorType r \<noteq> ''reflector'' \<and> length (mapping r) = 26 \<and>
      set (mapping r) = set genericMapping \<and>
      (case currentPos r of None \<Rightarrow> False | Some p \<Rightarrow> 0 \<le> p \<and> p \<le> 25) \<and>
      (case ringSetting r of None \<Rightarrow> False | Some q \<Rightarrow> 0 \<le> q \<and> q \<le> 25))"

definition reflector_ok :: "rotor \<Rightarrow> bool" where
  "reflector_ok rf =
     (rotorType rf = ''reflector'' \<and> length (mapping rf) = 26 \<and> list_all is_letter (mapping rf))"

definition machine_ok :: "enigma \<Rightarrow> bool" where
  "machine_ok m =
     (3 \<le> length (rotorsList m) \<and> list_all rotor_ok (rotorsList m) \<and>
      (case plugBoard m of None \<Rightarrow> False | Some pb \<Rightarrow> plugboard_ok pb) \<and>
      (case reflector m of None \<Rightarrow> False | Some rf \<Rightarrow> reflector_ok rf))"

section \<open>Example machines\<close>

text \<open>
  The machine that \<open>setup\<close> builds from the rotors III, II and I (ring setting 1, the
  rightmost at P) and reflector B, with its rotors at the given positions.
\<close>

definition stepping_example :: "int \<Rightarrow> int \<Rightarrow> int \<Rightarrow> enigma" where
  "stepping_example pl pm pr =
     \<lparr>rotorsList =
        [\<lparr>rotorType = ''notchrotor'', name = ''III'', mapping = ''BDFHJLCPRTXVZNYEIWGAKMUSQO'',
          ringSetting = Some 0, initialPos = Some 0, currentPos = Some pl,
          notch = [Some CHR ''V'']\<rparr>,
         \<lparr>rotorType = ''notchrotor'', name = ''II'', mapping = ''AJDKSIRUXBLHWTMCQGZNPYFVOE'',
          ringSetting = Some 0, initialPos = Some 0, currentPos = Some pm,
          notch = [Some CHR ''E'']\<rparr>,
         \<lparr>rotorType = ''notchrotor'', name = ''I'', mapping = ''EKMFLGDQVZNTOWYHXUSPAIBRCJ'',
          ringSetting = Some 0, initialPos = Some 15, currentPos = Some pr,
          notch = [Some CHR ''Q'']\<rparr>],
      plugBoard = Some \<lparr>plugLeadsLetters = [], plugLeads = [], numPlugLeads = 10\<rparr>,
      reflector =
        Some \<lparr>rotorType = ''reflector'', name = ''B'', mapping = ''YRUHQSLDPXNGOKMIEBFZCWVJAT'',
              ringSetting = None, initialPos = None, currentPos = None, notch = [None]\<rparr>\<rparr>"

text \<open>
  The machine that \<open>setup\<close> builds from three custom rotors wired as the alphabet, without
  notches, and the custom reflector that pairs A with B, C with D and so on; the rightmost
  rotor at the given position.
\<close>

definition identity_example :: "int \<Rightarrow> enigma" where
  "identity_example pr =
     \<lparr>rotorsList =
        [\<lparr>rotorType = ''notchlessrotor'', name = ''custom'',
          mapping = ''ABCDEFGHIJKLMNOPQRSTUVWXYZ'', ringSetting = Some 0,
          initialPos = Some 0, currentPos = Some 0, notch = [None]\<rparr>,
         \<lparr>rotorType = ''notchlessrotor'', name = ''custom'',
          mapping = ''ABCDEFGHIJKLMNOPQRSTUVWXYZ'', ringSetting = Some 4,
          initialPos = Some 10, currentPos = Some 10, notch = [None]\<rparr>,
         \<lparr>rotorType = ''notchlessrotor'', name = ''custom'',
          mapping = ''ABCDEFGHIJKLMNOPQRSTUVWXYZ'', ringSetting = Some 0,
          initialPos = Some 25, currentPos = Some pr, notch = [None]\<rparr>],
      plugBoard = Some \<lparr>plugLeadsLetters = [], plugLeads = [], numPlugLeads = 10\<rparr>,
      reflector =
        Some \<lparr>rotorType = ''reflector'', name = ''custom'',
              mapping = ''BADCFEHGJILKNMPORQTSVUXWZY'', ringSetting = None,
              initialPos = None, currentPos = None, notch = [None]\<rparr>\<rparr>"

section \<open>Basic facts: arithmetic, lists, characters\<close>

lemma mod_shift_up: "- m \<le> n \<Longrightarrow> n < 0 \<Longrightarrow> n mod m = n + (m::int)"
proof -
  assume a: "- m \<le> n" "n < 0"
  have "n mod m = (n + m) mod m" by simp
  also have "\<dots> = n + m" by (rule mod_pos_pos_trivial) (use a in auto)
  finally show ?thesis .
qed

lemma mod_shift_down: "m \<le> n \<Longrightarrow> n < 2 * m \<Longrightarrow> n mod m = n - (m::int)"
proof -
  assume a: "m \<le> n" "n < 2 * m"
  have "n mod m = (n - m) mod m" by simp
  also have "\<dots> = n - m" by (rule mod_pos_pos_trivial) (use a in auto)
  finally show ?thesis .
qed

lemma positionLooper_mod26: 
  assumes "- 25 \<le> n" "n \<le> 49" shows "positionLooper n 25 = Inr (n mod 26)"
proof -
  consider "n = - 25" | "- 25 < n" "n < 0" | "0 \<le> n" "n \<le> 25" | "26 \<le> n" using assms by linarith
  then show ?thesis
  proof cases
    case 1 then show ?thesis by (simp add: positionLooper_def py_mod_def)
  next
    case 2
    have a: "n mod 25 = n + 25" using 2 by (intro mod_shift_up) auto
    have b: "n mod 26 = n + 26" using 2 by (intro mod_shift_up) auto
    show ?thesis using 2 a b by (simp add: positionLooper_def py_mod_def)
  next
    case 3 then show ?thesis by (simp add: positionLooper_def py_mod_def)
  next
    case 4
    have a: "n mod 25 = n - 25" using 4 assms by (intro mod_shift_down) auto
    have b: "n mod 26 = n - 26" using 4 assms by (intro mod_shift_down) auto
    show ?thesis using 4 a b by (simp add: positionLooper_def py_mod_def)
  qed
qed

lemma py_index_Inr: "py_index xs x = Inr i \<Longrightarrow> 0 \<le> i \<and> nat i < length xs \<and> xs ! nat i = x"
proof (induction xs arbitrary: i)
  case Nil then show ?case by simp
next
  case (Cons y ys)
  show ?case
  proof (cases "y = x")
    case True with Cons.prems show ?thesis by simp
  next
    case False
    with Cons.prems obtain j where j: "py_index ys x = Inr j" "i = j + 1"
      by (cases "py_index ys x") auto
    from Cons.IH[OF j(1)] j(2) show ?thesis by (simp add: nat_add_distrib)
  qed
qed

lemma py_index_mem: "x \<in> set xs \<Longrightarrow> \<exists>i. py_index xs x = Inr i"
  by (induction xs) auto

lemma py_index_nth: "distinct xs \<Longrightarrow> i < length xs \<Longrightarrow> py_index xs (xs ! i) = Inr (int i)"
proof (induction xs arbitrary: i)
  case Nil then show ?case by simp
next
  case (Cons y ys)
  show ?case
  proof (cases i)
    case 0 then show ?thesis by simp
  next
    case (Suc j)
    with Cons.prems have "ys ! j \<noteq> y" "py_index ys (ys ! j) = Inr (int j)" using Cons.IH[of j] by auto
    with Suc show ?thesis by simp
  qed
qed

lemma distinct_genericMapping: "distinct genericMapping" by (simp add: genericMapping_def)
lemma length_genericMapping: "length genericMapping = 26" by (simp add: genericMapping_def)

lemma length_ascii [simp]: "length ascii_lowercase = 26" "length ascii_uppercase = 26"
  by (simp_all add: ascii_lowercase_def ascii_uppercase_def)

lemma distinct_ascii: "distinct (ascii_lowercase @ ascii_uppercase)"
  by (simp add: ascii_lowercase_def ascii_uppercase_def)

lemma distinct_lowercase [simp]: "distinct ascii_lowercase"
  and distinct_uppercase [simp]: "distinct ascii_uppercase"
  and ascii_disjoint: "set ascii_lowercase \<inter> set ascii_uppercase = {}"
  using distinct_ascii by auto

lemma genericMapping_uppercase: "genericMapping = ascii_uppercase"
  by (simp add: genericMapping_def ascii_uppercase_def)

lemma upper_lowercase_nth: "i < 26 \<Longrightarrow> upper (ascii_lowercase ! i) = ascii_uppercase ! i"
  by (simp add: upper_def map_of_zip_nth)

lemma lower_uppercase_nth: "i < 26 \<Longrightarrow> lower (ascii_uppercase ! i) = ascii_lowercase ! i"
  by (simp add: lower_def map_of_zip_nth)

lemma upper_not_lowercase:
  assumes "c \<notin> set ascii_lowercase" shows "upper c = c"
proof -
  from assms have "map_of (zip ascii_lowercase ascii_uppercase) c = None"
    by (subst map_of_zip_is_None) simp_all
  then show ?thesis unfolding upper_def by (simp only: option.case)
qed

lemma lower_not_uppercase:
  assumes "c \<notin> set ascii_uppercase" shows "lower c = c"
proof -
  from assms have "map_of (zip ascii_uppercase ascii_lowercase) c = None"
    by (subst map_of_zip_is_None) simp_all
  then show ?thesis unfolding lower_def by (simp only: option.case)
qed

lemma lowercase_props:
  assumes "c \<in> set ascii_lowercase"
  shows "upper c \<in> set ascii_uppercase" "lower c = c" "lower (upper c) = c"
proof -
  from assms obtain i where i: "i < 26" "c = ascii_lowercase ! i"
    by (auto simp: in_set_conv_nth)
  show "upper c \<in> set ascii_uppercase" using i by (simp add: upper_lowercase_nth)
  show "lower c = c" using assms ascii_disjoint by (intro lower_not_uppercase) auto
  show "lower (upper c) = c" using i by (simp add: upper_lowercase_nth lower_uppercase_nth)
qed

lemma uppercase_props:
  assumes "c \<in> set ascii_uppercase"
  shows "lower c \<in> set ascii_lowercase" "upper c = c" "upper (lower c) = c"
proof -
  from assms obtain i where i: "i < 26" "c = ascii_uppercase ! i"
    by (auto simp: in_set_conv_nth)
  show "lower c \<in> set ascii_lowercase" using i by (simp add: lower_uppercase_nth)
  show "upper c = c" using assms ascii_disjoint by (intro upper_not_lowercase) auto
  show "upper (lower c) = c" using i by (simp add: upper_lowercase_nth lower_uppercase_nth)
qed

lemma letter_props:
  assumes "is_letter c"
  shows "lower c \<in> set ascii_lowercase" "upper (lower c) \<in> set ascii_uppercase" "upper (lower c) = upper c"
  using assms lowercase_props[of c] uppercase_props[of c] lowercase_props[of "lower c"]
  by (auto simp: is_letter_def is_lower_def is_upper_def)


declare length_genericMapping [simp]

lemma py_pos_neg: "0 < k \<Longrightarrow> k \<le> n \<Longrightarrow> py_pos n (- int k) = Some (n - k)"
  by (auto simp: py_pos_def nat_diff_distrib')

lemma py_pos_nonneg: "i < n \<Longrightarrow> py_pos n (int i) = Some i"
  by (simp add: py_pos_def)

lemma py_get_neg: "0 < k \<Longrightarrow> k \<le> length xs \<Longrightarrow> py_get xs (- int k) = Inr (xs ! (length xs - k))"
  by (simp add: py_get_def py_pos_neg)

lemma py_set_neg: "0 < k \<Longrightarrow> k \<le> length xs \<Longrightarrow> py_set xs (- int k) v = Inr (xs[length xs - k := v])"
  by (simp add: py_set_def py_pos_neg)

lemma py_get_nonneg: "i < length xs \<Longrightarrow> py_get xs (int i) = Inr (xs ! i)"
  by (simp add: py_get_def py_pos_nonneg)

lemma py_get_last3:
  "py_get (xs @ [a, b, c]) (- 1) = Inr c"
  "py_get (xs @ [a, b, c]) (- 2) = Inr b"
  "py_get (xs @ [a, b, c]) (- 3) = Inr a"
  using py_get_neg [of 1 "xs @ [a, b, c]"] py_get_neg [of 2 "xs @ [a, b, c]"]
    py_get_neg [of 3 "xs @ [a, b, c]"]
  by (simp_all add: nth_append)

lemma py_set_last3:
  "py_set (xs @ [a, b, c]) (- 1) v = Inr (xs @ [a, b, v])"
  "py_set (xs @ [a, b, c]) (- 2) v = Inr (xs @ [a, v, c])"
  "py_set (xs @ [a, b, c]) (- 3) v = Inr (xs @ [v, b, c])"
  using py_set_neg [of 1 "xs @ [a, b, c]" v] py_set_neg [of 2 "xs @ [a, b, c]" v]
    py_set_neg [of 3 "xs @ [a, b, c]" v]
  by (simp_all add: list_update_append)

lemma generic_at_valid:
  "- 26 \<le> p \<Longrightarrow> p \<le> 25 \<Longrightarrow> generic_at (Some p) = Inr (genericMapping ! nat (p mod 26))"
proof -
  assume a: "- 26 \<le> p" "p \<le> 25"
  show ?thesis
  proof (cases "0 \<le> p")
    case True
    then have "p mod 26 = p" using a by simp
    with True a show ?thesis by (simp add: generic_at_def py_get_def py_pos_def)
  next
    case False
    have "p mod 26 = (p + 26) mod 26" by simp
    also have "\<dots> = p + 26" by (rule mod_pos_pos_trivial) (use False a in auto)
    finally have "p mod 26 = 26 + p" by simp
    with False a show ?thesis by (simp add: generic_at_def py_get_def py_pos_def)
  qed
qed

lemma generic_at_Inr: "generic_at pos = Inr c \<Longrightarrow> \<exists>p. pos = Some p \<and> - 26 \<le> p \<and> p \<le> 25"
  by (cases pos) (auto simp: generic_at_def py_get_def py_pos_def split: if_splits)

lemma valid_pos_generic_at:
  "valid_pos r \<Longrightarrow> \<exists>p. currentPos r = Some p \<and> - 26 \<le> p \<and> p \<le> 25 \<and>
     generic_at (currentPos r) = Inr (genericMapping ! nat (p mod 26))"
  by (cases "currentPos r") (auto simp: valid_pos_def generic_at_valid)

lemma turn_at_last3:
  assumes "length hs = length pre"
  shows "valid_pos R \<Longrightarrow> turn_at (- 1) (pre @ [L, M, R], hs @ [a, b, c]) = Inr (pre @ [L, M, stepped R], hs @ [a, b, True])"
    and "valid_pos M \<Longrightarrow> turn_at (- 2) (pre @ [L, M, R], hs @ [a, b, c]) = Inr (pre @ [L, stepped M, R], hs @ [a, True, c])"
    and "valid_pos L \<Longrightarrow> turn_at (- 3) (pre @ [L, M, R], hs @ [a, b, c]) = Inr (pre @ [stepped L, M, R], hs @ [True, b, c])"
  by (auto simp: turn_at_def py_get_last3 py_set_last3 valid_pos_def stepped_def positionLooper_mod26 split: option.splits)


lemma for_loop_unchanged:
  "(\<And>i. i \<in> set is \<Longrightarrow> body i s = Inr s) \<Longrightarrow> for_loop body is s = Inr s"
  by (induction "is") auto

lemma for_loop_check:
  "(\<And>x. x \<in> set xs \<Longrightarrow> \<exists>c. f x = Inr c) \<Longrightarrow>
     for_loop (\<lambda>x u. bindE (f x) (\<lambda>_. Inr u)) xs u = Inr u"
proof (induction xs)
  case Nil then show ?case by simp
next
  case (Cons y ys)
  then obtain c where "f y = Inr c" by fastforce
  with Cons show ?case by simp
qed

lemma for_loop_check_Inr:
  "for_loop (\<lambda>x u. bindE (f x) (\<lambda>_. Inr u)) xs u = Inr v \<Longrightarrow> x \<in> set xs \<Longrightarrow> \<exists>c. f x = Inr c"
proof (induction xs)
  case Nil then show ?case by simp
next
  case (Cons y ys)
  then show ?case by (cases "f y") auto
qed

lemma notch_stepped [simp]: "notch (stepped r) = notch r"
  by (simp add: stepped_def)

lemma turn_body_high:
  assumes "3 \<le> r" "r \<le> length rs" "\<forall>x\<in>set rs. valid_pos x"
  shows "turn_body (map currentPos rs) nlr r (rs', hs) =
           bindE (py_get rs' (- int r)) (\<lambda>_. Inr (rs', hs))"
proof -
  have "0 < r" using assms by simp
  have "rs ! (length rs - r) \<in> set rs" using assms by simp
  then have "valid_pos (rs ! (length rs - r))" using assms by blast
  from valid_pos_generic_at[OF this] obtain p where
    "generic_at (currentPos (rs ! (length rs - r))) = Inr (genericMapping ! nat (p mod 26))" by blast
  moreover have "py_get (map currentPos rs) (- int r) = Inr (currentPos (rs ! (length rs - r)))"
    using assms \<open>0 < r\<close> by (simp add: py_get_neg)
  ultimately show ?thesis using assms(1)
    by (cases "py_get rs' (- int r)") (simp_all add: turn_body_def)
qed


lemma upt_from_1: "2 \<le> n \<Longrightarrow> [1 ..< n + 1] = 1 # 2 # [3 ..< n + 1]"
proof -
  assume n: "2 \<le> n"
  have "[1 ..< n + 1] = 1 # [Suc 1 ..< n + 1]" using n by (intro upt_conv_Cons) simp
  moreover have "[2 ..< n + 1] = 2 # [Suc 2 ..< n + 1]" using n by (intro upt_conv_Cons) simp
  moreover have "Suc 1 = 2" "Suc 2 = 3" by simp_all
  ultimately show ?thesis by (simp only:)
qed

lemma length_notchlessToTheRight [simp]: "length (notchlessToTheRight rs) = length rs"
  unfolding notchlessToTheRight_def length_map length_upt by simp

lemma valid_pos_at_notch:
  "valid_pos r \<Longrightarrow> \<exists>c. generic_at (currentPos r) = Inr c \<and> (Some c \<in> set (notch r)) = at_notch r"
  using valid_pos_generic_at [of r] by (auto simp: at_notch_def)

lemma turn_body_1:
  assumes "length hs = length pre" "length ip = length pre + 3" "length nlr = length pre + 3"
    and "ip ! (length pre + 2) = currentPos R0" "notch R = notch R0"
    and "valid_pos R0" "valid_pos R" "valid_pos M"
  shows "turn_body ip nlr 1 (pre @ [L, M, R], hs @ [a, b, False]) =
     Inr (if at_notch R0 \<and> \<not> nlr ! (length pre + 2)
          then (pre @ [L, stepped M, stepped R], hs @ [a, True, True])
          else (pre @ [L, M, R], hs @ [a, b, False]))"
proof -
  from valid_pos_at_notch [OF assms(6)] obtain c where
    c: "generic_at (currentPos R0) = Inr c" "(Some c \<in> set (notch R0)) = at_notch R0" by blast
  have g: "py_get ip (- 1) = Inr (currentPos R0)" "py_get nlr (- 1) = Inr (nlr ! (length pre + 2))"
    using py_get_neg [of 1 ip] py_get_neg [of 1 nlr] assms by simp_all
  show ?thesis
    using assms(1,5,7,8) c g
    by (simp add: turn_body_def py_get_last3 turn_at_last3)
qed

lemma turn_body_2:
  assumes "length hs = length pre" "length ip = length pre + 3" "length nlr = length pre + 3"
    and "ip ! (length pre + 1) = currentPos M0" "notch M = notch M0"
    and "valid_pos M0" "valid_pos M" "valid_pos L"
  shows "turn_body ip nlr 2 (pre @ [L, M, R], hs @ [False, b, c]) =
     Inr (if at_notch M0 \<and> \<not> nlr ! (length pre + 1)
          then (pre @ [stepped L, if b then M else stepped M, R], hs @ [True, True, c])
          else (pre @ [L, M, R], hs @ [False, b, c]))"
proof -
  from valid_pos_at_notch [OF assms(6)] obtain d where
    d: "generic_at (currentPos M0) = Inr d" "(Some d \<in> set (notch M0)) = at_notch M0" by blast
  have g: "py_get ip (- 2) = Inr (currentPos M0)" "py_get nlr (- 2) = Inr (nlr ! (length pre + 1))"
    using py_get_neg [of 2 ip] py_get_neg [of 2 nlr] assms by simp_all
  show ?thesis
    using assms(1,5,7,8) d g
    by (simp add: turn_body_def py_get_last3 turn_at_last3)
qed


lemma valid_pos_stepped: "valid_pos r \<Longrightarrow> valid_pos (stepped r)"
  by (cases "currentPos r") (auto simp: valid_pos_def stepped_def intro: order_trans [OF _ pos_mod_sign])

lemma currentPos_stepped:
  "currentPos r = Some p \<Longrightarrow> currentPos (stepped r) = Some ((p + 1) mod 26)"
  by (simp add: stepped_def)

lemma replicate_3: "replicate (n + 3) x = replicate n x @ [x, x, x]"
proof -
  have "replicate 3 x = [x, x, x]" by (simp add: numeral_3_eq_3)
  then show ?thesis by (simp only: replicate_add)
qed

lemma turn_loop_rest:
  assumes "\<forall>x\<in>set rs. valid_pos x" "length rs' = length rs"
  shows "for_loop (turn_body (map currentPos rs) nlr) [3 ..< length rs + 1] (rs', hs) = Inr (rs', hs)"
proof (rule for_loop_unchanged)
  fix r assume "r \<in> set [3 ..< length rs + 1]"
  then have r: "3 \<le> r" "r \<le> length rs" by auto
  then have "py_get rs' (- int r) = Inr (rs' ! (length rs' - r))"
    using assms(2) by (intro py_get_neg) auto
  with turn_body_high [OF r assms(1)] show "turn_body (map currentPos rs) nlr r (rs', hs) = Inr (rs', hs)"
    by simp
qed

lemma turnRotors_three:
  assumes valid: "\<forall>x\<in>set (pre @ [L, M, R]). valid_pos x"
  shows "turnRotors (pre @ [L, M, R]) =
     Inr (pre @
       [if at_notch M \<and> \<not> notchlessToTheRight (pre @ [L, M, R]) ! (length pre + 1)
        then stepped L else L,
        if (at_notch R \<and> \<not> notchlessToTheRight (pre @ [L, M, R]) ! (length pre + 2))
           \<or> (at_notch M \<and> \<not> notchlessToTheRight (pre @ [L, M, R]) ! (length pre + 1))
        then stepped M else M,
        stepped R])"
proof -
  let ?rs = "pre @ [L, M, R]"
  let ?ip = "map currentPos ?rs"
  let ?nlr = "notchlessToTheRight ?rs"
  let ?hs = "replicate (length pre) False"
  define c1 where "c1 = (at_notch R \<and> \<not> ?nlr ! (length pre + 2))"
  define c2 where "c2 = (at_notch M \<and> \<not> ?nlr ! (length pre + 1))"
  have vL: "valid_pos L" and vM: "valid_pos M" and vR: "valid_pos R" using valid by auto
  have len: "length ?rs = length pre + 3" by simp
  have check: "for_loop (\<lambda>x u. bindE (generic_at (currentPos x)) (\<lambda>_. Inr u)) ?rs () = Inr ()"
    using valid by (intro for_loop_check) (metis valid_pos_generic_at)
  have upt: "[1 ..< length ?rs + 1] = 1 # 2 # [3 ..< length ?rs + 1]"
    by (intro upt_from_1) simp
  have rep: "replicate (length ?rs) False = ?hs @ [False, False, False]"
    unfolding len by (rule replicate_3)
  define s1 where "s1 = (if c1 then (pre @ [L, stepped M, stepped R], ?hs @ [False, True, True])
                         else (?rs, ?hs @ [False, False, False]))"
  have b1: "turn_body ?ip ?nlr 1 (?rs, ?hs @ [False, False, False]) = Inr s1"
    unfolding s1_def c1_def using vR vM
    by (intro turn_body_1) (simp_all add: nth_append)
  define s2 where "s2 =
     (if c2 then (pre @ [stepped L, stepped M, if c1 then stepped R else R],
                   ?hs @ [True, True, c1])
      else s1)"
  have b2: "turn_body ?ip ?nlr 2 s1 = Inr s2"
  proof (cases c1)
    case True
    have "turn_body ?ip ?nlr 2 (pre @ [L, stepped M, stepped R], ?hs @ [False, True, True]) =
            Inr (if at_notch M \<and> \<not> ?nlr ! (length pre + 1)
                 then (pre @ [stepped L, if True then stepped M else stepped (stepped M), stepped R],
                       ?hs @ [True, True, True])
                 else (pre @ [L, stepped M, stepped R], ?hs @ [False, True, True]))"
      using vL vM valid_pos_stepped [OF vM]
      by (intro turn_body_2) (simp_all add: nth_append)
    with True show ?thesis unfolding s1_def s2_def c2_def [symmetric] by simp
  next
    case False
    have "turn_body ?ip ?nlr 2 (pre @ [L, M, R], ?hs @ [False, False, False]) =
            Inr (if at_notch M \<and> \<not> ?nlr ! (length pre + 1)
                 then (pre @ [stepped L, if False then M else stepped M, R],
                       ?hs @ [True, True, False])
                 else (pre @ [L, M, R], ?hs @ [False, False, False]))"
      using vL vM
      by (intro turn_body_2) (simp_all add: nth_append)
    with False show ?thesis unfolding s1_def s2_def c2_def [symmetric] by simp
  qed
  have l2: "length (fst s2) = length ?rs" by (simp add: s1_def s2_def)
  have b3: "for_loop (turn_body ?ip ?nlr) [3 ..< length ?rs + 1] s2 = Inr s2"
    using turn_loop_rest [OF valid l2, of ?nlr "snd s2"] by simp
  have loop: "for_loop (turn_body ?ip ?nlr) [1 ..< length ?rs + 1] (?rs, replicate (length ?rs) False) = Inr s2"
    unfolding upt rep using b1 b2 b3 by simp
  have fin: "bindE (py_get (snd s2) (- 1)) (\<lambda>ht.
           if \<not> ht
           then bindE (py_get (fst s2) (- 1)) (\<lambda>rot.
                bindE (case currentPos rot of None \<Rightarrow> Inl TypeError
                       | Some p \<Rightarrow> positionLooper (p + 1) 25) (\<lambda>updatedPos.
                  py_set (fst s2) (- 1) (rot\<lparr>currentPos := Some updatedPos\<rparr>)))
           else Inr (fst s2)) =
       Inr (pre @ [if c2 then stepped L else L, if c1 \<or> c2 then stepped M else M, stepped R])"
    using vR
    by (cases c1; cases c2)
       (auto simp: s1_def s2_def py_get_last3 py_set_last3 valid_pos_def stepped_def
        positionLooper_mod26 split: option.splits)
  show ?thesis
    unfolding turnRotors_def Let_def c1_def [symmetric] c2_def [symmetric]
    using check loop fin by simp
qed


lemma bindE_eq_Inr: "(bindE x f = Inr y) = (\<exists>a. x = Inr a \<and> f a = Inr y)"
  by (cases x) auto

lemma fullEncode_Inr:
  assumes "fullEncode m s = Inr (out, m')"
  shows "\<exists>rs. turnRotors (rotorsList m) = Inr rs \<and> m' = m\<lparr>rotorsList := rs\<rparr>"
  using assms unfolding fullEncode_def bindE_eq_Inr by auto

lemma turnRotors_Inr_valid:
  assumes "turnRotors rs = Inr rs'" "x \<in> set rs"
  shows "valid_pos x"
proof -
  from assms(1) have "for_loop (\<lambda>x u. bindE (generic_at (currentPos x)) (\<lambda>_. Inr u)) rs () = Inr ()"
    unfolding turnRotors_def Let_def bindE_eq_Inr by auto
  from for_loop_check_Inr [OF this assms(2)] obtain c where "generic_at (currentPos x) = Inr c" by blast
  from generic_at_Inr [OF this] show ?thesis by (auto simp: valid_pos_def)
qed

lemma last_three: "3 \<le> length rs \<Longrightarrow> \<exists>pre L M R. rs = pre @ [L, M, R]"
proof -
  assume a: "3 \<le> length rs"
  then obtain r1 R where 1: "rs = r1 @ [R]" by (cases rs rule: rev_cases) auto
  with a obtain r2 M where 2: "r1 = r2 @ [M]" by (cases r1 rule: rev_cases) auto
  with a 1 obtain r3 L where 3: "r2 = r3 @ [L]" by (cases r2 rule: rev_cases) auto
  from 1 2 3 show ?thesis by simp
qed

lemma notchlessToTheRight_3:
  "notchlessToTheRight [L, M, R] = [False, rotorType R = ''notchless'', rotorType M = ''notchless'']"
proof -
  have "[1 ..< length [L, M, R] + 1] = [1, 2, 3]"
    using upt_from_1 [of "length [L, M, R]"] by (simp add: upt_rec [of 3])
  then show ?thesis by (simp add: notchlessToTheRight_def)
qed

lemma generic_16: "genericMapping ! 15 = CHR ''P''" "genericMapping ! 16 = CHR ''Q''"
  by (simp_all add: genericMapping_def)


lemma validator_single:
  "inputValidator_encodingElement [c] =
     (if is_letter c then Inr (lower c) else Inl (InputError OnlyLetters))"
  by (simp add: inputValidator_encodingElement_def)

lemma upper_in_generic:
  assumes "is_letter c"
  shows "\<exists>i<26. upper c = genericMapping ! i \<and> upper (lower c) = genericMapping ! i"
proof -
  from letter_props [OF assms] have "upper c \<in> set genericMapping" "upper (lower c) = upper c"
    by (simp_all add: genericMapping_uppercase)
  then show ?thesis by (auto simp: in_set_conv_nth)
qed

lemma generic_nth_eq: "i < 26 \<Longrightarrow> j < 26 \<Longrightarrow> (genericMapping ! i = genericMapping ! j) = (i = j)"
  using distinct_genericMapping by (simp add: nth_eq_iff_index_eq)

lemma upper_generic: "i < 26 \<Longrightarrow> upper (genericMapping ! i) = genericMapping ! i"
  using uppercase_props(2) [of "genericMapping ! i"] by (simp add: genericMapping_uppercase)

lemma generic_24_25: "genericMapping ! 24 = CHR ''Y''" "genericMapping ! 25 = CHR ''Z''"
  by (simp_all add: genericMapping_def)

lemma identity_rotor_transparent:
  assumes "rotorType r \<noteq> ''reflector''" and "mapping r = genericMapping"
    and "currentPos r = Some p" and "ringSetting r = Some q"
    and "0 \<le> p" "p \<le> 25" "0 \<le> q" "q \<le> 25"
    and "is_letter c"
    and "\<not> (p - q = 25 \<and> upper c = CHR ''Z'')"
    and "\<not> (p - q = - 25 \<and> upper c = CHR ''Y'')"
  shows "Rotor_encode r [c] d = Inr (upper c)"
proof -
  from upper_in_generic [OF assms(9)] obtain i where
    i: "i < 26" "upper c = genericMapping ! i" "upper (lower c) = genericMapping ! i" by blast
  define off where "off = p - q"
  define w where "w = (int i + off) mod 26"
  have off: "- 25 \<le> off" "off \<le> 25" using assms(5-8) by (simp_all add: off_def)
  have w: "0 \<le> w" "w < 26" by (simp_all add: w_def)
  have nw: "nat w < 26" using w by simp
  have not50: "int i + off \<le> 49"
  proof (rule ccontr)
    assume "\<not> int i + off \<le> 49"
    with i(1) off have "i = 25" "off = 25" by simp_all
    with assms(10) i(2) show False by (simp add: off_def generic_24_25)
  qed
  have idx: "py_index genericMapping (genericMapping ! i) = Inr (int i)"
    using i(1) by (simp add: py_index_nth distinct_genericMapping)
  have pl1: "positionLooper (int i + off) 25 = Inr w"
    unfolding w_def using off not50 by (intro positionLooper_mod26) simp_all
  have get_w: "py_get genericMapping w = Inr (genericMapping ! nat w)"
    using py_get_nonneg [of "nat w" genericMapping] w by simp
  have idx_w: "py_index genericMapping (genericMapping ! nat w) = Inr w"
    using py_index_nth [OF distinct_genericMapping, of "nat w"] w by simp
  have shift_back: "(w - off) mod 26 = int i"
  proof -
    have "(w - off) mod 26 = (int i + off - off) mod 26" unfolding w_def by (rule mod_diff_left_eq)
    then show ?thesis using i(1) by simp
  qed
  have notm50: "w - off \<le> 49"
  proof (rule ccontr)
    assume "\<not> w - off \<le> 49"
    with w off have wo: "w = 25" "off = - 25" by simp_all
    with shift_back have "int i = 50 mod 26" by simp
    then have "i = 24" by simp
    with assms(11) i(2) wo show False by (simp add: off_def generic_24_25)
  qed
  have pl2: "positionLooper (w - off) 25 = Inr (int i)"
    using positionLooper_mod26 [of "w - off"] w off notm50 shift_back by simp
  have get_i: "py_get genericMapping (int i) = Inr (genericMapping ! i)"
    using i(1) by (simp add: py_get_nonneg)
  have gp: "generic_at (Some p) = Inr (genericMapping ! nat (p mod 26))"
    using assms(5,6) by (intro generic_at_valid) simp_all
  show ?thesis
    using assms(1-4,9) i idx pl1 get_w idx_w pl2 get_i gp
    by (simp add: Rotor_encode_def validator_single off_def [symmetric] upper_generic)
qed


subsection \<open>The example machines are what the configuration method builds\<close>

lemma stepping_example_setup:
  "setup_machine EnigmaMachine
        [[PStr ''RotorIII'', PInt 1, PStr ''A'', PInt 1],
         [PStr ''RotorII'', PInt 1, PStr ''A'', PInt 2],
         [PStr ''RotorI'', PInt 1, PStr ''P'', PInt 3]]
        (RName (PStr ''ReflectorB'')) None 10 = Inr (stepping_example 0 0 15)"
  by code_simp

lemma identity_example_setup:
  "setup_machine EnigmaMachine
        [[PStr ''RotorCustom'', PInt 1, PStr ''A'', PInt 1, PStr ''ABCDEFGHIJKLMNOPQRSTUVWXYZ''],
         [PStr ''RotorCustom'', PInt 5, PStr ''K'', PInt 2, PStr ''ABCDEFGHIJKLMNOPQRSTUVWXYZ''],
         [PStr ''RotorCustom'', PInt 1, PStr ''Z'', PInt 3, PStr ''ABCDEFGHIJKLMNOPQRSTUVWXYZ'']]
        (RList [PStr ''ReflectorCustom'', PStr ''BADCFEHGJILKNMPORQTSVUXWZY'']) None 10
     = Inr (identity_example 25)"
  by code_simp

text \<open>
  The model on a known ciphertext of the historical machine: rotors I, II, III at AAA with
  ring settings 1 and reflector B turn AAAAA into BDZGO.
\<close>

lemma historical_ciphertext:
  "map_sum id fst
     (bindE (setup_machine EnigmaMachine
        [[PStr ''RotorI'', PInt 1, PStr ''A'', PInt 1],
         [PStr ''RotorII'', PInt 1, PStr ''A'', PInt 2],
         [PStr ''RotorIII'', PInt 1, PStr ''A'', PInt 3]]
        (RName (PStr ''ReflectorB'')) None 10) (\<lambda>m. serialEncode m ''AAAAA'')) = Inr ''BDZGO''"
  by code_simp

lemma identity_example_reflector: "fixed_point_free_involution ''BADCFEHGJILKNMPORQTSVUXWZY''"
  by code_simp

subsection \<open>Rotors wired as the alphabet\<close>

lemma char_facts:
  "is_letter CHR ''A''" "is_letter CHR ''B''" "is_letter CHR ''a''" "is_letter CHR ''b''"
  "lower CHR ''A'' = CHR ''a''" "lower CHR ''B'' = CHR ''b''"
  "lower CHR ''a'' = CHR ''a''" "lower CHR ''b'' = CHR ''b''"
  "upper CHR ''a'' = CHR ''A''" "upper CHR ''b'' = CHR ''B''"
  "upper CHR ''A'' = CHR ''A''" "upper CHR ''B'' = CHR ''B''"
  by (simp_all add: is_letter_def is_lower_def is_upper_def upper_def lower_def
      ascii_lowercase_def ascii_uppercase_def)

lemma generic_0_1: "py_index genericMapping CHR ''A'' = Inr 0" "py_index genericMapping CHR ''B'' = Inr 1"
  by (simp_all add: genericMapping_def)

lemma Plugboard_encode_unwired:
  "is_letter c \<Longrightarrow> lower c \<notin> set (plugLeadsLetters pb) \<Longrightarrow>
     Plugboard_encode pb [c] = Inr (upper (lower c))"
  by (simp add: Plugboard_encode_def validator_single)

lemma identity_notchless_encode:
  assumes "identity_notchless r" "c \<in> {CHR ''A'', CHR ''B'', CHR ''a'', CHR ''b''}"
  shows "Rotor_encode r [c] d = Inr (upper c)"
proof -
  from assms(1) obtain p q where
    pq: "currentPos r = Some p" "ringSetting r = Some q" "0 \<le> p" "p \<le> 25" "0 \<le> q" "q \<le> 25"
    by (auto simp: identity_notchless_def split: option.splits)
  have t: "rotorType r \<noteq> ''reflector''" "mapping r = genericMapping"
    using assms(1) by (auto simp: identity_notchless_def)
  have c: "is_letter c" "upper c \<noteq> CHR ''Z''" "upper c \<noteq> CHR ''Y''"
    using assms(2) char_facts by auto
  show ?thesis
    by (rule identity_rotor_transparent [OF t pq c(1)]) (use c in simp_all)
qed

lemma identity_notchless_loop:
  assumes "list_all identity_notchless rs" "c \<in> {CHR ''A'', CHR ''B'', CHR ''a'', CHR ''b''}"
  shows "for_loop (\<lambda>r e. Rotor_encode r [e] d) rs c = Inr (if rs = [] then c else upper c)"
  using assms
proof (induction rs arbitrary: c)
  case Nil
  then show ?case by simp
next
  case (Cons r rs)
  have 1: "Rotor_encode r [c] d = Inr (upper c)"
    using Cons.prems by (intro identity_notchless_encode) simp_all
  have 2: "upper c \<in> {CHR ''A'', CHR ''B'', CHR ''a'', CHR ''b''}" "upper (upper c) = upper c"
    using Cons.prems(2) char_facts by auto
  have "for_loop (\<lambda>r e. Rotor_encode r [e] d) rs (upper c) = Inr (if rs = [] then upper c else upper (upper c))"
    using Cons.prems(1) 2(1) by (intro Cons.IH) simp_all
  with 1 2(2) show ?case by simp
qed

lemma identity_notchless_stepped: "identity_notchless r \<Longrightarrow> identity_notchless (stepped r)"
  by (auto simp: identity_notchless_def stepped_def split: option.splits)

lemma identity_notchless_valid: "identity_notchless r \<Longrightarrow> valid_pos r \<and> \<not> at_notch r"
  by (auto simp: identity_notchless_def valid_pos_def at_notch_def split: option.splits)

lemma turnRotors_identity:
  assumes "3 \<le> length rs" "list_all identity_notchless rs"
  shows "turnRotors rs = Inr (butlast rs @ [stepped (last rs)])"
proof -
  from last_three [OF assms(1)] obtain pre L M R where rs: "rs = pre @ [L, M, R]" by blast
  have v: "\<forall>x\<in>set (pre @ [L, M, R]). valid_pos x"
    using assms(2) rs identity_notchless_valid by (auto simp: list_all_iff)
  have n: "\<not> at_notch M" "\<not> at_notch R"
    using assms(2) rs identity_notchless_valid by (auto simp: list_all_iff)
  show ?thesis using turnRotors_three [OF v] n rs by (simp add: butlast_append)
qed

lemma reflector_encode:
  assumes "rotorType rf = ''reflector''" "is_letter c"
    and "py_index genericMapping (upper (lower c)) = Inr (int i)" "i < length (mapping rf)"
  shows "Rotor_encode rf [c] d = Inr (lower (mapping rf ! i))"
  using assms by (simp add: Rotor_encode_def validator_single py_get_nonneg)

section \<open>The position-wrap helper\<close>

text \<open>
  Claim C3, as the code has it.  For every integer \<open>n\<close>, \<open>positionLooper(n, 25)\<close> returns \<open>n\<close>
  when \<open>0 \<le> n \<le> 25\<close>, \<open>(n mod 25) + 1\<close> when \<open>n < 0\<close> and \<open>(n mod 25) - 1\<close> when \<open>n > 25\<close>:
  the modulus is the argument \<open>base\<close>, 25, and not 26.
\<close>

theorem positionLooper_25:
  "positionLooper n 25 =
     Inr (if 0 \<le> n \<and> n \<le> 25 then n else if n < 0 then n mod 25 + 1 else n mod 25 - 1)"
  by (simp add: positionLooper_def py_mod_def)

theorem positionLooper_25_witness:
  "positionLooper (- 1) 25 = Inr 25 \<and> positionLooper 26 25 = Inr 0 \<and> positionLooper 7 25 = Inr 7"
  using positionLooper_25 [of "- 1"] positionLooper_25 [of 26] positionLooper_25 [of 7] by simp

text \<open>
  The rule with modulus 26 fails at \<open>n = -1\<close>: the code returns 25, the rule gives
  \<open>(-1 mod 26) + 1 = 26\<close>.
\<close>

theorem positionLooper_mod26_counterexample:
  "positionLooper (- 1) 25 \<noteq> Inr ((- 1) mod 26 + 1)"
  by (simp add: positionLooper_def py_mod_def)

section \<open>Construction of a custom reflector\<close>

text \<open>
  Claim C8, as the code has it.  \<open>ReflectorCustom\<close> checks only that no character of the
  wiring repeats: with a 26-character wiring that repeats a character the construction
  fails with a ValueError, and every 26-character wiring without repeats is accepted,
  whether or not it is a fixed-point-free involution.
\<close>

theorem ReflectorCustom_checks_repeats_only:
  "length m = 26 \<Longrightarrow>
   ReflectorCustom m =
     (if distinct m
      then Inr \<lparr>rotorType = ''reflector'', name = ''custom'', mapping = m, ringSetting = None,
                initialPos = None, currentPos = None, notch = [None]\<rparr>
      else Inl (ValueError MappingRepeat))"
  by (auto simp: ReflectorCustom_def Rotor_init_def repeats_check_def)

theorem ReflectorCustom_checks_repeats_only_witness:
  "length ''YRUHQSLDPXNGOKMIEBFZCWVJAT'' = 26 \<and>
   ReflectorCustom ''YRUHQSLDPXNGOKMIEBFZCWVJAT'' =
     Inr \<lparr>rotorType = ''reflector'', name = ''custom'', mapping = ''YRUHQSLDPXNGOKMIEBFZCWVJAT'',
          ringSetting = None, initialPos = None, currentPos = None, notch = [None]\<rparr>"
  using ReflectorCustom_checks_repeats_only [of "''YRUHQSLDPXNGOKMIEBFZCWVJAT''"] by simp

text \<open>
  The identity wiring maps every letter to itself, and the constructor accepts it.
\<close>

theorem ReflectorCustom_identity_counterexample:
  "\<not> fixed_point_free_involution ''ABCDEFGHIJKLMNOPQRSTUVWXYZ'' \<and>
   ReflectorCustom ''ABCDEFGHIJKLMNOPQRSTUVWXYZ'' =
     Inr \<lparr>rotorType = ''reflector'', name = ''custom'', mapping = ''ABCDEFGHIJKLMNOPQRSTUVWXYZ'',
          ringSetting = None, initialPos = None, currentPos = None, notch = [None]\<rparr>"
  by code_simp

section \<open>Capacity of the plugboard\<close>

lemma Plugboard_add_ok:
  assumes "int (length (plugLeads pb)) \<noteq> numPlugLeads pb"
    and "set (lettersList l) \<inter> set (plugLeadsLetters pb) = {}"
  shows "Plugboard_add pb l =
           Inr (pb\<lparr>plugLeadsLetters := plugLeadsLetters pb @ lettersList l,
                   plugLeads := plugLeads pb @ [l]\<rparr>)"
proof -
  have "find (\<lambda>x. x \<in> set (plugLeadsLetters pb)) (lettersList l) = None"
    using assms(2) by (auto simp: find_None_iff)
  with assms(1) show ?thesis by (simp add: Plugboard_add_def)
qed

lemma Plugboard_add_all:
  assumes "numPlugLeads pb < 0"
    and "distinct (concat (map lettersList ls))"
    and "set (concat (map lettersList ls)) \<inter> set (plugLeadsLetters pb) = {}"
  shows "for_loop (\<lambda>l b. Plugboard_add b l) ls pb =
           Inr (pb\<lparr>plugLeadsLetters := plugLeadsLetters pb @ concat (map lettersList ls),
                   plugLeads := plugLeads pb @ ls\<rparr>)"
  using assms
proof (induction ls arbitrary: pb)
  case Nil
  then show ?case by simp
next
  case (Cons l ls)
  let ?pb = "pb\<lparr>plugLeadsLetters := plugLeadsLetters pb @ lettersList l,
                  plugLeads := plugLeads pb @ [l]\<rparr>"
  have add: "Plugboard_add pb l = Inr ?pb"
    using Cons.prems by (intro Plugboard_add_ok) auto
  have "for_loop (\<lambda>l b. Plugboard_add b l) ls ?pb =
          Inr (?pb\<lparr>plugLeadsLetters := plugLeadsLetters ?pb @ concat (map lettersList ls),
                     plugLeads := plugLeads ?pb @ ls\<rparr>)"
    using Cons.prems by (intro Cons.IH) auto
  with add show ?case by simp
qed

text \<open>
  Claim C10.  The constructor rejects exactly the capacities above 13.  With a negative
  capacity \<open>add\<close> never raises the capacity error, and any list of leads whose letters are
  all different is added in full.
\<close>

theorem Plugboard_capacity:
  "Plugboard n =
     (if 13 < n then Inl (ValueError TooManyLeads)
      else Inr \<lparr>plugLeadsLetters = [], plugLeads = [], numPlugLeads = n\<rparr>)
   \<and> (numPlugLeads pb < 0 \<longrightarrow> Plugboard_add pb l \<noteq> Inl (PlugboardError MaxReached))
   \<and> (n < 0 \<longrightarrow> distinct (concat (map lettersList ls)) \<longrightarrow>
        for_loop (\<lambda>l b. Plugboard_add b l) ls
            \<lparr>plugLeadsLetters = [], plugLeads = [], numPlugLeads = n\<rparr> =
          Inr \<lparr>plugLeadsLetters = concat (map lettersList ls), plugLeads = ls,
               numPlugLeads = n\<rparr>)"
proof (intro conjI impI)
  show "Plugboard n =
     (if 13 < n then Inl (ValueError TooManyLeads)
      else Inr \<lparr>plugLeadsLetters = [], plugLeads = [], numPlugLeads = n\<rparr>)"
    by (simp add: Plugboard_def)
  show "Plugboard_add pb l \<noteq> Inl (PlugboardError MaxReached)" if "numPlugLeads pb < 0"
    using that by (auto simp: Plugboard_add_def split: option.splits)
  show "for_loop (\<lambda>l b. Plugboard_add b l) ls
            \<lparr>plugLeadsLetters = [], plugLeads = [], numPlugLeads = n\<rparr> =
          Inr \<lparr>plugLeadsLetters = concat (map lettersList ls), plugLeads = ls,
               numPlugLeads = n\<rparr>"
    if "n < 0" "distinct (concat (map lettersList ls))"
    using Plugboard_add_all [of "\<lparr>plugLeadsLetters = [], plugLeads = [], numPlugLeads = n\<rparr>" ls] that
    by simp
qed

theorem Plugboard_capacity_witness:
  "Plugboard (- 1) = Inr \<lparr>plugLeadsLetters = [], plugLeads = [], numPlugLeads = - 1\<rparr>
   \<and> Plugboard_add \<lparr>plugLeadsLetters = [], plugLeads = [], numPlugLeads = - 1\<rparr>
        \<lparr>lettersList = ''ab''\<rparr> \<noteq> Inl (PlugboardError MaxReached)
   \<and> for_loop (\<lambda>l b. Plugboard_add b l) [\<lparr>lettersList = ''ab''\<rparr>, \<lparr>lettersList = ''cd''\<rparr>]
         \<lparr>plugLeadsLetters = [], plugLeads = [], numPlugLeads = - 1\<rparr> =
       Inr \<lparr>plugLeadsLetters = ''abcd'',
            plugLeads = [\<lparr>lettersList = ''ab''\<rparr>, \<lparr>lettersList = ''cd''\<rparr>],
            numPlugLeads = - 1\<rparr>"
  using Plugboard_capacity [of "- 1" "\<lparr>plugLeadsLetters = [], plugLeads = [], numPlugLeads = - 1\<rparr>"
      "\<lparr>lettersList = ''ab''\<rparr>" "[\<lparr>lettersList = ''ab''\<rparr>, \<lparr>lettersList = ''cd''\<rparr>]"]
  by simp


section \<open>Rejected configurations\<close>

text \<open>
  Claim C9, as the code has it.  A \<open>setup\<close> with fewer than three rotors fails with the
  count error (default plugboard arguments); \<open>addRotor\<close> fails with an order error for an
  order below 1 and for an order above the number of rotors present plus one; any order
  in between is accepted, also one given before: the rotor is inserted at that place and
  the rotors from there on move one place to the right.
\<close>

theorem configuration_rejection:
  "(n \<le> 13 \<longrightarrow> length rotors < 3 \<longrightarrow>
      setup_machine self rotors reflector0 None n = Inl (ValueError MinRotors))
   \<and> (k < 1 \<longrightarrow> addRotor self r (PInt k) = Inl (ValueError BadPosition))
   \<and> (int (length (rotorsList self)) + 1 < k \<longrightarrow>
        addRotor self r (PInt k) = Inl (ValueError OutOfOrder))
   \<and> (1 \<le> k \<longrightarrow> k \<le> int (length (rotorsList self)) + 1 \<longrightarrow>
        addRotor self r (PInt k) =
          Inr (self\<lparr>rotorsList := py_insert (rotorsList self) (nat (k - 1)) r\<rparr>))"
  by (auto simp: setup_machine_def Plugboard_def addRotor_def)

theorem configuration_rejection_witness:
  "setup_machine EnigmaMachine
       [[PStr ''RotorI'', PInt 1, PStr ''A'', PInt 1], [PStr ''RotorII'', PInt 1, PStr ''A'', PInt 2]]
       (RName (PStr ''ReflectorB'')) None 10 = Inl (ValueError MinRotors)
   \<and> addRotor EnigmaMachine (rotorsList (stepping_example 0 0 15) ! 0) (PInt 0)
        = Inl (ValueError BadPosition)
   \<and> addRotor EnigmaMachine (rotorsList (stepping_example 0 0 15) ! 0) (PInt 3)
        = Inl (ValueError OutOfOrder)
   \<and> addRotor (EnigmaMachine\<lparr>rotorsList := [rotorsList (stepping_example 0 0 15) ! 0]\<rparr>)
         (rotorsList (stepping_example 0 0 15) ! 1) (PInt 1) =
       Inr (EnigmaMachine\<lparr>rotorsList := [rotorsList (stepping_example 0 0 15) ! 1,
                                           rotorsList (stepping_example 0 0 15) ! 0]\<rparr>)"
  using configuration_rejection [of 10 "[[PStr ''RotorI'', PInt 1, PStr ''A'', PInt 1], [PStr ''RotorII'', PInt 1, PStr ''A'', PInt 2]]" EnigmaMachine "RName (PStr ''ReflectorB'')" 0 "rotorsList (stepping_example 0 0 15) ! 0"]
    configuration_rejection [of 10 "[]" EnigmaMachine "RName (PStr ''ReflectorB'')" 3 "rotorsList (stepping_example 0 0 15) ! 0"]
    configuration_rejection [of 10 "[]" "EnigmaMachine\<lparr>rotorsList := [rotorsList (stepping_example 0 0 15) ! 0]\<rparr>" "RName (PStr ''ReflectorB'')" 1 "rotorsList (stepping_example 0 0 15) ! 1"]
  by (simp add: EnigmaMachine_def py_insert_def)

text \<open>
  Three rotors that all ask for order 1 are accepted; the machine holds them in the
  reverse order of their insertion.
\<close>

theorem duplicate_order_counterexample:
  "map_sum id (map name \<circ> rotorsList)
     (setup_machine EnigmaMachine
        [[PStr ''RotorI'', PInt 1, PStr ''A'', PInt 1],
         [PStr ''RotorII'', PInt 1, PStr ''A'', PInt 1],
         [PStr ''RotorIII'', PInt 1, PStr ''A'', PInt 1]]
        (RName (PStr ''ReflectorB'')) None 10) = Inr [''III'', ''II'', ''I'']"
  by code_simp

text \<open>Order 0 in a \<open>setup\<close> of three rotors.\<close>

theorem order_zero_setup:
  "setup_machine EnigmaMachine
        [[PStr ''RotorI'', PInt 1, PStr ''A'', PInt 0],
         [PStr ''RotorII'', PInt 1, PStr ''A'', PInt 1],
         [PStr ''RotorIII'', PInt 1, PStr ''A'', PInt 2]]
        (RName (PStr ''ReflectorB'')) None 10 = Inl (ValueError BadPosition)"
  by code_simp

section \<open>The notch-less neighbour\<close>

text \<open>
  Every rotor class sets \<open>rotorType\<close> to \<open>notchrotor\<close> or \<open>notchlessrotor\<close>, never to
  \<open>notchless\<close>; so for the rotors of any machine of such rotors the list
  \<open>notchlessToTheRight\<close> holds \<open>False\<close> only, and the test on it never stops a step.
\<close>

lemma notchlessToTheRight_never:
  assumes "\<forall>r\<in>set rs. rotorType r \<noteq> ''notchless''"
  shows "notchlessToTheRight rs = replicate (length rs) False"
proof (rule nth_equalityI)
  show "length (notchlessToTheRight rs) = length (replicate (length rs) False)" by simp
next
  fix i assume "i < length (notchlessToTheRight rs)"
  then have i: "i < length rs" by simp
  have "notchlessToTheRight rs ! i =
          (if 1 + i = 1 then False else rotorType (rs ! (length rs - (1 + i - 1))) = ''notchless'')"
    unfolding notchlessToTheRight_def using i by (subst nth_map) (simp_all del: upt_Suc)
  moreover have "rs ! (length rs - (1 + i - 1)) \<in> set rs" if "i \<noteq> 0"
    using i that by (intro nth_mem) simp
  ultimately show "notchlessToTheRight rs ! i = replicate (length rs) False ! i"
    using assms i by auto
qed

lemma catalog_rotor_types:
  "catalog_rotor t n nt w ring pos = Inr r \<Longrightarrow> rotorType r = t"
  "RotorCustom ring pos w' ns = Inr r \<Longrightarrow> rotorType r = ''notchrotor'' \<or> rotorType r = ''notchlessrotor''"
  by (auto simp: catalog_rotor_def RotorCustom_def Rotor_init_def bindE_eq_Inr split: if_splits option.splits)

text \<open>
  Claim C5 at a machine with the rotors I, II (at its notch letter E) and Beta (rightmost,
  notch-less): the rotors start at positions 0, 4, 0, and after one encoded character
  they are at 1, 5, 1.  The middle rotor has stepped from its notch, and the left rotor
  with it.  The test of \<open>notchlessToTheRight\<close> compares \<open>rotorType\<close> with \<open>notchless\<close>,
  while the notch-less classes set it to \<open>notchlessrotor\<close>.
\<close>

theorem notchless_gating_failing_input:
  "map_sum id (map currentPos \<circ> rotorsList)
     (setup_machine EnigmaMachine
        [[PStr ''RotorI'', PInt 1, PStr ''A'', PInt 1],
         [PStr ''RotorII'', PInt 1, PStr ''E'', PInt 2],
         [PStr ''RotorBeta'', PInt 1, PStr ''A'', PInt 3]]
        (RName (PStr ''ReflectorB'')) None 10) = Inr [Some 0, Some 4, Some 0]
   \<and> map_sum id (map currentPos \<circ> rotorsList \<circ> snd)
     (bindE (setup_machine EnigmaMachine
        [[PStr ''RotorI'', PInt 1, PStr ''A'', PInt 1],
         [PStr ''RotorII'', PInt 1, PStr ''E'', PInt 2],
         [PStr ''RotorBeta'', PInt 1, PStr ''A'', PInt 3]]
        (RName (PStr ''ReflectorB'')) None 10) (\<lambda>m. fullEncode m ''A'')) = Inr [Some 1, Some 5, Some 1]"
  by code_simp

section \<open>A rotor wired as the alphabet\<close>

text \<open>
  The docstring of \<open>positionLooper\<close> promises a number within the allowed range and gives
  the example of 28 with base 26 returning 2.  The function returns 1 there, and for 50
  with base 25 it returns \<open>-1\<close>.
\<close>

lemma positionLooper_docstring_example:
  "positionLooper 28 26 = Inr 1" "positionLooper 50 25 = Inr (- 1)"
  by (simp_all add: positionLooper_def py_mod_def)

text \<open>
  Claim C4 at the two offsets of largest magnitude.  With ring setting 1 and position Z
  (offset 25) the identity-wired rotor returns A for the input Z; with ring setting 26
  and position A (offset -25) it returns Z for the input Y; in both directions.
  \<open>positionLooper(50, 25)\<close> is \<open>-1\<close>, which then indexes the last letter.
\<close>

theorem identity_rotor_failing_input:
  "bindE (RotorCustom (PInt 1) (PStr ''Z'') ''ABCDEFGHIJKLMNOPQRSTUVWXYZ'' None)
     (\<lambda>r. Rotor_encode r ''Z'' ''right'') = Inr CHR ''A''
   \<and> bindE (RotorCustom (PInt 1) (PStr ''Z'') ''ABCDEFGHIJKLMNOPQRSTUVWXYZ'' None)
     (\<lambda>r. Rotor_encode r ''Z'' ''left'') = Inr CHR ''A''
   \<and> bindE (RotorCustom (PInt 26) (PStr ''A'') ''ABCDEFGHIJKLMNOPQRSTUVWXYZ'' None)
     (\<lambda>r. Rotor_encode r ''Y'' ''right'') = Inr CHR ''Z''
   \<and> bindE (RotorCustom (PInt 26) (PStr ''A'') ''ABCDEFGHIJKLMNOPQRSTUVWXYZ'' None)
     (\<lambda>r. Rotor_encode r ''Y'' ''left'') = Inr CHR ''Z''"
  by code_simp

section \<open>Plugboard encoding\<close>

text \<open>
  On a board whose leads each hold two different lower-case letters, encoding is an
  involution up to case: a wired letter goes to the other letter of its lead, an unwired
  one to itself, both in upper case.  The constructor \<open>PlugLead\<close> yields such a lead when
  its two letters differ also after lowering, and \<open>add\<close> keeps the board well-formed.
\<close>

lemma PlugLead_two_letters:
  assumes "is_letter a" "is_letter b" "a \<noteq> b"
  shows "PlugLead [a, b] = Inr \<lparr>lettersList = [lower a, lower b]\<rparr>"
proof -
  have "lower (lower a) = lower a" "lower (lower b) = lower b"
    using letter_props(1) [OF assms(1)] letter_props(1) [OF assms(2)] lowercase_props(2) by auto
  then show ?thesis using assms
    by (simp add: PlugLead_def inputValidator_inputElement_def)
qed

lemma PlugLead_lead_ok:
  assumes "is_letter a" "is_letter b" "lower a \<noteq> lower b"
  shows "lead_ok \<lparr>lettersList = [lower a, lower b]\<rparr>"
  using assms letter_props(1) [OF assms(1)] letter_props(1) [OF assms(2)]
  by (simp add: lead_ok_def is_lower_def)

lemma Plugboard_new_ok: "Plugboard n = Inr pb \<Longrightarrow> plugboard_ok pb"
  by (auto simp: Plugboard_def plugboard_ok_def split: if_splits)

lemma Plugboard_add_keeps_ok:
  assumes "plugboard_ok pb" "lead_ok l" "Plugboard_add pb l = Inr pb'"
  shows "plugboard_ok pb'"
proof -
  from assms(3) have none: "find (\<lambda>x. x \<in> set (plugLeadsLetters pb)) (lettersList l) = None"
    and pb': "pb' = pb\<lparr>plugLeadsLetters := plugLeadsLetters pb @ lettersList l,
                        plugLeads := plugLeads pb @ [l]\<rparr>"
    by (auto simp: Plugboard_add_def split: if_splits option.splits)
  from none have "set (lettersList l) \<inter> set (plugLeadsLetters pb) = {}"
    by (auto simp: find_None_iff)
  with assms(1,2) show ?thesis
    unfolding pb' by (auto simp: plugboard_ok_def lead_ok_def)
qed

lemma py_get_Cons_Suc: "0 \<le> k \<Longrightarrow> py_get (x # xs) (k + 1) = py_get xs k"
  by (auto simp: py_get_def py_pos_def nat_add_distrib)

lemma find_lead:
  assumes "list_all (\<lambda>l. length (lettersList l) = 2) leads"
    and "distinct (concat (map lettersList leads))"
    and "l \<in> set leads" and "c \<in> set (lettersList l)"
  shows "\<exists>i. py_index (concat (map lettersList leads)) c = Inr i \<and> py_get leads (i div 2) = Inr l"
  using assms
proof (induction leads)
  case Nil
  then show ?case by simp
next
  case (Cons l0 ls)
  from Cons.prems(1) obtain a b where ab: "lettersList l0 = [a, b]"
    by (cases "lettersList l0"; cases "tl (lettersList l0)") auto
  show ?case
  proof (cases "c = a \<or> c = b")
    case True
    then have "c \<in> set (lettersList l0)" using ab by auto
    with Cons.prems(2,3,4) have "l = l0" by auto
    with True ab show ?thesis by (auto simp: py_get_def py_pos_def)
  next
    case False
    with Cons.prems(3,4) ab have l: "l \<in> set ls" by auto
    from Cons.IH [OF _ _ l Cons.prems(4)] Cons.prems(1,2) obtain j where
      j: "py_index (concat (map lettersList ls)) c = Inr j" "py_get ls (j div 2) = Inr l" by auto
    from py_index_Inr [OF j(1)] have j0: "0 \<le> j" by simp
    have "(j + 1 + 1) div 2 = j div 2 + 1" by simp
    moreover have "0 \<le> j div 2" using j0 by simp
    ultimately have "py_get (l0 # ls) ((j + 1 + 1) div 2) = Inr l"
      using j(2) py_get_Cons_Suc [of "j div 2" l0 ls] by simp
    then have "py_get (l0 # ls) ((j + 1 + 1) div 2) = Inr l" .
    moreover from False have "a \<noteq> c" "b \<noteq> c" by auto
    ultimately show ?thesis using ab j(1) by simp
  qed
qed

lemma PlugLead_encode_pair:
  assumes "lettersList l = [a, b]" "a \<noteq> b" "is_lower a" "is_lower b"
  shows "PlugLead_encode l [a] = Inr (upper b)" "PlugLead_encode l [b] = Inr (upper a)"
proof -
  have "lower a = a" "lower b = b" "is_letter a" "is_letter b"
    using assms(3,4) lowercase_props(2) by (auto simp: is_lower_def is_letter_def)
  then show "PlugLead_encode l [a] = Inr (upper b)" "PlugLead_encode l [b] = Inr (upper a)"
    using assms(1,2) by (auto simp: PlugLead_encode_def validator_single py_get_def py_pos_def)
qed

lemma Plugboard_encode_wired:
  assumes "plugboard_ok pb" "l \<in> set (plugLeads pb)" "lettersList l = [a, b]"
  shows "Plugboard_encode pb [a] = Inr (upper b)" "Plugboard_encode pb [b] = Inr (upper a)"
proof -
  have ok: "lead_ok l" using assms(1,2) by (auto simp: plugboard_ok_def list_all_iff)
  then have ab: "a \<noteq> b" "is_lower a" "is_lower b" using assms(3) by (auto simp: lead_ok_def)
  have low: "lower a = a" "lower b = b" "is_letter a" "is_letter b"
    using ab lowercase_props(2) by (auto simp: is_lower_def is_letter_def)
  have two: "list_all (\<lambda>l. length (lettersList l) = 2) (plugLeads pb)"
    using assms(1) by (auto simp: plugboard_ok_def lead_ok_def list_all_iff)
  have d: "distinct (concat (map lettersList (plugLeads pb)))"
    using assms(1) by (auto simp: plugboard_ok_def)
  have mem: "a \<in> set (plugLeadsLetters pb)" "b \<in> set (plugLeadsLetters pb)"
    using assms by (force simp: plugboard_ok_def)+
  from find_lead [OF two d assms(2), of a] assms(3) obtain i where
    i: "py_index (plugLeadsLetters pb) a = Inr i" "py_get (plugLeads pb) (i div 2) = Inr l"
    using assms(1) by (auto simp: plugboard_ok_def)
  from find_lead [OF two d assms(2), of b] assms(3) obtain j where
    j: "py_index (plugLeadsLetters pb) b = Inr j" "py_get (plugLeads pb) (j div 2) = Inr l"
    using assms(1) by (auto simp: plugboard_ok_def)
  show "Plugboard_encode pb [a] = Inr (upper b)"
    using low mem i PlugLead_encode_pair(1) [OF assms(3) ab]
    by (simp add: Plugboard_encode_def validator_single)
  show "Plugboard_encode pb [b] = Inr (upper a)"
    using low mem j PlugLead_encode_pair(2) [OF assms(3) ab]
    by (simp add: Plugboard_encode_def validator_single)
qed

lemma distinct_concat_shared:
  assumes "distinct (concat xss)" "xs \<in> set xss" "ys \<in> set xss" "c \<in> set xs" "c \<in> set ys"
  shows "xs = ys"
proof (rule ccontr)
  assume "xs \<noteq> ys"
  with assms(1,2,3) have "set xs \<inter> set ys = {}" by (simp add: distinct_concat_iff)
  with assms(4,5) show False by auto
qed

lemma Plugboard_encode_involution:
  assumes "plugboard_ok pb" "is_letter x"
  shows "\<exists>y. Plugboard_encode pb [x] = Inr y \<and> Plugboard_encode pb [y] = Inr (upper x)
           \<and> (lower x \<notin> set (plugLeadsLetters pb) \<longrightarrow> y = upper x)
           \<and> (\<forall>l a b. l \<in> set (plugLeads pb) \<and> lettersList l = [a, b] \<longrightarrow>
                 (lower x = a \<longrightarrow> y = upper b) \<and> (lower x = b \<longrightarrow> y = upper a))"
proof (cases "lower x \<in> set (plugLeadsLetters pb)")
  case False
  have lx: "lower x \<in> set ascii_lowercase" "upper (lower x) = upper x"
    using letter_props [OF assms(2)] by simp_all
  have ux: "is_letter (upper x)" "lower (upper x) = lower x"
    using lx lowercase_props [of "lower x"] by (auto simp: is_letter_def is_upper_def)
  have 1: "Plugboard_encode pb [x] = Inr (upper x)"
    using False assms(2) lx by (simp add: Plugboard_encode_unwired)
  have 2: "Plugboard_encode pb [upper x] = Inr (upper x)"
    using False ux lx by (simp add: Plugboard_encode_unwired)
  have 3: "lower x \<noteq> a \<and> lower x \<noteq> b" if "l \<in> set (plugLeads pb)" "lettersList l = [a, b]" for l a b
    using that False assms(1) by (auto simp: plugboard_ok_def)
  show ?thesis using 1 2 3 False by blast
next
  case True
  then obtain l where l: "l \<in> set (plugLeads pb)" "lower x \<in> set (lettersList l)"
    using assms(1) by (auto simp: plugboard_ok_def)
  then have ok: "lead_ok l" using assms(1) by (auto simp: plugboard_ok_def list_all_iff)
  then obtain a b where ab: "lettersList l = [a, b]" "a \<noteq> b" "is_lower a" "is_lower b"
    by (cases "lettersList l"; cases "tl (lettersList l)") (auto simp: lead_ok_def)
  have lx: "upper (lower x) = upper x" using letter_props [OF assms(2)] by simp
  have enc_x: "Plugboard_encode pb [x] = Plugboard_encode pb [lower x]"
    using assms(2) letter_props(1) [OF assms(2)] lowercase_props(2) [of "lower x"]
    by (simp add: Plugboard_encode_def validator_single is_letter_def is_lower_def)
  have enc_up: "Plugboard_encode pb [upper c] = Plugboard_encode pb [c]" if "is_lower c" for c
    using that lowercase_props [of c]
    by (simp add: Plugboard_encode_def validator_single is_letter_def is_lower_def is_upper_def)
  have uniq: "(a' = a \<and> b' = b)" if "l' \<in> set (plugLeads pb)" "lettersList l' = [a', b']"
      "lower x = a' \<or> lower x = b'" for l' a' b'
  proof -
    have "distinct (concat (map lettersList (plugLeads pb)))"
      using assms(1) by (auto simp: plugboard_ok_def)
    moreover have "lower x \<in> set (lettersList l')" using that by auto
    moreover have "lettersList l' \<in> set (map lettersList (plugLeads pb))"
      "lettersList l \<in> set (map lettersList (plugLeads pb))" using that(1) l(1) by simp_all
    ultimately have "lettersList l' = lettersList l"
      using l(2) by (intro distinct_concat_shared [of _ _ _ "lower x"])
    with that ab show ?thesis by simp
  qed
  from l(2) ab consider "lower x = a" | "lower x = b" by auto
  then show ?thesis
  proof cases
    case 1
    have y: "Plugboard_encode pb [x] = Inr (upper b)"
      using enc_x 1 Plugboard_encode_wired(1) [OF assms(1) l(1) ab(1)] by simp
    have again: "Plugboard_encode pb [upper b] = Inr (upper x)"
      using enc_up [OF ab(4)] Plugboard_encode_wired(2) [OF assms(1) l(1) ab(1)] 1 lx by simp
    show ?thesis using y again True uniq 1 ab(2) by (intro exI [of _ "upper b"]) auto
  next
    case 2
    have y: "Plugboard_encode pb [x] = Inr (upper a)"
      using enc_x 2 Plugboard_encode_wired(2) [OF assms(1) l(1) ab(1)] by simp
    have again: "Plugboard_encode pb [upper a] = Inr (upper x)"
      using enc_up [OF ab(3)] Plugboard_encode_wired(1) [OF assms(1) l(1) ab(1)] 2 lx by simp
    show ?thesis using y again True uniq 2 ab(2) by (intro exI [of _ "upper a"]) auto
  qed
qed

text \<open>
  Claim C7 at a board holding the lead built from \<open>Aa\<close>: the validator compares the two
  letters before lowering them, so the lead is accepted (while \<open>AA\<close> is rejected), its
  letter list is \<open>aa\<close>, and encoding A raises IndexError.
\<close>

theorem plugboard_same_letter_failing_input:
  "bindE (Plugboard 10) (\<lambda>pb. bindE (PlugLead ''Aa'') (\<lambda>l. bindE (Plugboard_add pb l)
     (\<lambda>pb'. Plugboard_encode pb' ''A''))) = Inl IndexError
  \<and> bindE (PlugLead ''Aa'') (\<lambda>l. Inr (lettersList l)) = Inr ''aa''
  \<and> PlugLead ''AA'' = Inl (InputError LettersDiffer)"
  by code_simp


section \<open>Every call on a well-formed machine returns\<close>

text \<open>
  On a well-formed machine \<open>fullEncode\<close> raises nothing for a letter: it returns one
  upper-case letter and a well-formed machine.  So the statements below about calls that
  return are about every call on such a machine.
\<close>

lemma positionLooper_range:
  assumes "- 25 \<le> n" "n \<le> 50"
  shows "\<exists>w. positionLooper n 25 = Inr w \<and> - 1 \<le> w \<and> w \<le> 25"
proof (cases "n = 50")
  case True
  then show ?thesis by (simp add: positionLooper_def py_mod_def)
next
  case False
  with assms have "positionLooper n 25 = Inr (n mod 26)" by (intro positionLooper_mod26) simp_all
  moreover have "- 1 \<le> n mod 26" using pos_mod_sign [of 26 n] by linarith
  moreover have "n mod 26 \<le> 25" using pos_mod_bound [of 26 n] by linarith
  ultimately show ?thesis by blast
qed

lemma py_get_generic:
  assumes "- 1 \<le> w" "w \<le> 25"
  shows "\<exists>g. py_get genericMapping w = Inr g \<and> g \<in> set genericMapping"
proof -
  have "generic_at (Some w) = Inr (genericMapping ! nat (w mod 26))"
    using assms by (intro generic_at_valid) simp_all
  moreover have "nat (w mod 26) < length genericMapping" by simp
  ultimately show ?thesis by (simp add: generic_at_def)
qed

lemma py_index_found:
  assumes "x \<in> set xs"
  shows "\<exists>k. py_index xs x = Inr (int k) \<and> k < length xs \<and> xs ! k = x"
proof -
  from py_index_mem [OF assms] obtain i where i: "py_index xs x = Inr i" by blast
  from py_index_Inr [OF i] have "0 \<le> i" "nat i < length xs" "xs ! nat i = x" by simp_all
  with i show ?thesis by (intro exI [of _ "nat i"]) simp
qed

lemma generic_is_letter: "g \<in> set genericMapping \<Longrightarrow> is_letter g \<and> upper g = g"
  using uppercase_props(2) [of g] by (simp add: genericMapping_uppercase is_letter_def is_upper_def)

lemma Rotor_encode_total:
  assumes "rotor_ok r" "is_letter c"
  shows "\<exists>y. Rotor_encode r [c] d = Inr y \<and> y \<in> set genericMapping"
proof -
  from assms(1) obtain p q where
    pq: "currentPos r = Some p" "ringSetting r = Some q" "0 \<le> p" "p \<le> 25" "0 \<le> q" "q \<le> 25"
    by (auto simp: rotor_ok_def split: option.splits)
  have r: "rotorType r \<noteq> ''reflector''" "length (mapping r) = 26"
    "set (mapping r) = set genericMapping"
    using assms(1) by (auto simp: rotor_ok_def)
  define off where "off = p - q"
  from upper_in_generic [OF assms(2)] obtain i where
    i: "i < 26" "upper (lower c) = genericMapping ! i" by blast
  have idx: "py_index genericMapping (genericMapping ! i) = Inr (int i)"
    using i(1) by (simp add: py_index_nth distinct_genericMapping)
  obtain w1 where w1: "positionLooper (int i + off) 25 = Inr w1" "- 1 \<le> w1" "w1 \<le> 25"
    using positionLooper_range [of "int i + off"] i(1) pq by (auto simp: off_def)
  from py_get_generic [OF w1(2,3)] obtain g where
    g: "py_get genericMapping w1 = Inr g" "g \<in> set genericMapping" by blast
  have "\<exists>letter. (if d = ''right''
            then bindE (py_index genericMapping g) (\<lambda>index. py_get (mapping r) index)
            else bindE (py_index (mapping r) g) (\<lambda>index. py_get genericMapping index)) = Inr letter
          \<and> letter \<in> set genericMapping"
  proof (cases "d = ''right''")
    case True
    from py_index_found [OF g(2)] obtain k where
      k: "py_index genericMapping g = Inr (int k)" "k < 26" by auto
    have "py_get (mapping r) (int k) = Inr (mapping r ! k)" "mapping r ! k \<in> set genericMapping"
      using k(2) r(2,3) py_get_nonneg [of k "mapping r"] nth_mem [of k "mapping r"] by simp_all
    with True k(1) show ?thesis by simp
  next
    case False
    from g(2) r(3) have "g \<in> set (mapping r)" by simp
    from py_index_found [OF this] r(2) obtain k where
      k: "py_index (mapping r) g = Inr (int k)" "k < 26" by auto
    have "py_get genericMapping (int k) = Inr (genericMapping ! k)" "genericMapping ! k \<in> set genericMapping"
      using k(2) by (simp_all add: py_get_nonneg)
    with False k(1) show ?thesis by simp
  qed
  then obtain letter where letter:
    "(if d = ''right''
      then bindE (py_index genericMapping g) (\<lambda>index. py_get (mapping r) index)
      else bindE (py_index (mapping r) g) (\<lambda>index. py_get genericMapping index)) = Inr letter"
    "letter \<in> set genericMapping" by blast
  from py_index_found [OF letter(2)] obtain li where
    li: "py_index genericMapping letter = Inr (int li)" "li < 26" by auto
  obtain w2 where w2: "positionLooper (int li - off) 25 = Inr w2" "- 1 \<le> w2" "w2 \<le> 25"
    using positionLooper_range [of "int li - off"] li(2) pq by (auto simp: off_def)
  from py_get_generic [OF w2(2,3)] obtain ret where
    ret: "py_get genericMapping w2 = Inr ret" "ret \<in> set genericMapping" by blast
  have gp: "generic_at (Some p) = Inr (genericMapping ! nat (p mod 26))"
    using pq by (intro generic_at_valid) simp_all
  have "Rotor_encode r [c] d = Inr (upper ret)"
    using r(1) pq(1,2) assms(2) i(2) idx w1(1) g(1) letter(1) li(1) w2(1) ret(1) gp
    by (simp add: Rotor_encode_def validator_single off_def [symmetric])
  with ret(2) generic_is_letter [OF ret(2)] show ?thesis by simp
qed

lemma Rotor_loop_total:
  assumes "list_all rotor_ok rs" "is_letter c"
  shows "\<exists>y. for_loop (\<lambda>r e. Rotor_encode r [e] d) rs c = Inr y \<and> is_letter y"
  using assms
proof (induction rs arbitrary: c)
  case Nil
  then show ?case by simp
next
  case (Cons r rs)
  from Rotor_encode_total [of r c d] Cons.prems obtain y where
    y: "Rotor_encode r [c] d = Inr y" "y \<in> set genericMapping" by auto
  from Cons.IH [of y] Cons.prems(1) generic_is_letter [OF y(2)] y(1) show ?case by simp
qed

lemma reflector_total:
  assumes "reflector_ok rf" "is_letter c"
  shows "\<exists>y. Rotor_encode rf [c] d = Inr y \<and> is_letter y"
proof -
  from upper_in_generic [OF assms(2)] obtain i where
    i: "i < 26" "upper (lower c) = genericMapping ! i" by blast
  have idx: "py_index genericMapping (upper (lower c)) = Inr (int i)"
    using i by (simp add: py_index_nth distinct_genericMapping)
  have rf: "rotorType rf = ''reflector''" "i < length (mapping rf)" "is_letter (mapping rf ! i)"
    using assms(1) i(1) by (auto simp: reflector_ok_def list_all_length)
  have "is_letter (lower (mapping rf ! i))"
    using letter_props(1) [OF rf(3)] by (simp add: is_letter_def is_lower_def)
  with reflector_encode [OF rf(1) assms(2) idx rf(2)] show ?thesis by simp
qed

lemma Plugboard_encode_total:
  assumes "plugboard_ok pb" "is_letter c"
  shows "\<exists>y. Plugboard_encode pb [c] = Inr y \<and> is_letter y"
proof -
  from Plugboard_encode_involution [OF assms] obtain y where
    y: "Plugboard_encode pb [c] = Inr y" "Plugboard_encode pb [y] = Inr (upper c)" by blast
  have "is_letter y"
  proof (rule ccontr)
    assume "\<not> is_letter y"
    then have "Plugboard_encode pb [y] = Inl (InputError OnlyLetters)"
      by (simp add: Plugboard_encode_def validator_single)
    with y(2) show False by simp
  qed
  with y(1) show ?thesis by blast
qed

lemma rotor_ok_stepped: "rotor_ok r \<Longrightarrow> rotor_ok (stepped r)"
  by (auto simp: rotor_ok_def stepped_def split: option.splits)

lemma rotor_ok_valid: "rotor_ok r \<Longrightarrow> valid_pos r"
  by (auto simp: rotor_ok_def valid_pos_def split: option.splits)

lemma turnRotors_total:
  assumes "3 \<le> length rs" "list_all rotor_ok rs"
  shows "\<exists>rs'. turnRotors rs = Inr rs' \<and> length rs' = length rs \<and> list_all rotor_ok rs'"
proof -
  from last_three [OF assms(1)] obtain pre L M R where rs: "rs = pre @ [L, M, R]" by blast
  have v: "\<forall>x\<in>set (pre @ [L, M, R]). valid_pos x"
    using assms(2) rs rotor_ok_valid by (auto simp: list_all_iff)
  have ok: "list_all rotor_ok pre" "rotor_ok L" "rotor_ok M" "rotor_ok R"
    using assms(2) rs by simp_all
  show ?thesis
    unfolding rs turnRotors_three [OF v] using ok rotor_ok_stepped by simp
qed

lemma fullEncode_total:
  assumes "machine_ok m" "is_letter c"
  shows "\<exists>out m'. fullEncode m [c] = Inr ([out], m') \<and> out \<in> set genericMapping \<and> machine_ok m'"
proof -
  from assms(1) obtain pb rf where
    m: "plugBoard m = Some pb" "plugboard_ok pb" "reflector m = Some rf" "reflector_ok rf"
      "3 \<le> length (rotorsList m)" "list_all rotor_ok (rotorsList m)"
    by (auto simp: machine_ok_def split: option.splits)
  have lc: "is_letter (lower c)"
    using letter_props(1) [OF assms(2)] by (simp add: is_letter_def is_lower_def)
  from Plugboard_encode_total [OF m(2) lc] obtain e0 where
    e0: "Plugboard_encode pb [lower c] = Inr e0" "is_letter e0" by blast
  from turnRotors_total [OF m(5,6)] obtain rs where
    rs: "turnRotors (rotorsList m) = Inr rs" "length rs = length (rotorsList m)" "list_all rotor_ok rs"
    by blast
  have "list_all rotor_ok (rev rs)" using rs(3) by simp
  from Rotor_loop_total [OF this e0(2)] obtain e1 where
    e1: "for_loop (\<lambda>r e. Rotor_encode r [e] ''right'') (rev rs) e0 = Inr e1" "is_letter e1" by blast
  from reflector_total [OF m(4) e1(2)] obtain e2 where
    e2: "Rotor_encode rf [e1] ''left'' = Inr e2" "is_letter e2" by blast
  from Rotor_loop_total [OF rs(3) e2(2)] obtain e3 where
    e3: "for_loop (\<lambda>r e. Rotor_encode r [e] ''left'') rs e2 = Inr e3" "is_letter e3" by blast
  from Plugboard_encode_total [OF m(2) e3(2)] obtain e4 where
    e4: "Plugboard_encode pb [e3] = Inr e4" "is_letter e4" by blast
  have out: "upper e4 \<in> set genericMapping"
    using letter_props(2,3) [OF e4(2)] by (simp add: genericMapping_uppercase)
  have ok': "machine_ok (m\<lparr>rotorsList := rs\<rparr>)"
    using m rs by (simp add: machine_ok_def)
  have "fullEncode m [c] = Inr ([upper e4], m\<lparr>rotorsList := rs\<rparr>)"
    using assms(2) m(1,3) e0(1) rs(1) e1(1) e2(1) e3(1) e4(1)
    by (simp add: fullEncode_def validator_single)
  with out ok' show ?thesis by blast
qed

lemma stepping_example_ok: "machine_ok (stepping_example 0 0 15)"
  by code_simp

section \<open>Stepping\<close>

text \<open>
  Claim C6.  In a machine with at least three rotors, every call of \<open>fullEncode\<close> that
  returns an encoded character leaves the rightmost rotor exactly one position further,
  modulo 26 (from 25 to 0), whatever the notches are; the number of rotors is unchanged.
\<close>

theorem rightmost_rotor_steps_once:
  assumes "fullEncode m s = Inr (out, m')"
    and "3 \<le> length (rotorsList m)"
    and "currentPos (last (rotorsList m)) = Some p"
  shows "currentPos (last (rotorsList m')) = Some ((p + 1) mod 26)
         \<and> length (rotorsList m') = length (rotorsList m)"
proof -
  from fullEncode_Inr [OF assms(1)] obtain rs where
    rs: "turnRotors (rotorsList m) = Inr rs" "m' = m\<lparr>rotorsList := rs\<rparr>" by blast
  from last_three [OF assms(2)] obtain pre L M R where
    split: "rotorsList m = pre @ [L, M, R]" by blast
  have "\<forall>x\<in>set (pre @ [L, M, R]). valid_pos x"
    using turnRotors_Inr_valid [OF rs(1)] split by simp
  from turnRotors_three [OF this] rs(1) split
  have "last rs = stepped R" "length rs = length (rotorsList m)" by auto
  moreover have "currentPos R = Some p" using assms(3) split by simp
  ultimately show ?thesis using rs(2) by (simp add: currentPos_stepped)
qed

theorem rightmost_rotor_steps_once_witness:
  "fullEncode (stepping_example 0 0 15) ''A'' = Inr (''J'', stepping_example 0 0 16)
   \<and> 3 \<le> length (rotorsList (stepping_example 0 0 15))
   \<and> currentPos (last (rotorsList (stepping_example 0 0 15))) = Some 15
   \<and> currentPos (last (rotorsList (stepping_example 0 0 16))) = Some ((15 + 1) mod 26)
   \<and> length (rotorsList (stepping_example 0 0 16)) = length (rotorsList (stepping_example 0 0 15))"
proof -
  have 1: "fullEncode (stepping_example 0 0 15) ''A'' = Inr (''J'', stepping_example 0 0 16)"
    by code_simp
  have 2: "3 \<le> length (rotorsList (stepping_example 0 0 15))"
    by (simp add: stepping_example_def)
  have 3: "currentPos (last (rotorsList (stepping_example 0 0 15))) = Some 15"
    by (simp add: stepping_example_def)
  from rightmost_rotor_steps_once [OF 1 2 3] 1 2 3 show ?thesis by simp
qed

text \<open>
  Claim C1.  A three-rotor machine whose rightmost rotor is at position 15 (P), has Q in
  its notch list and not P, and whose middle rotor (of one of the rotor classes, so its
  type is not the string \<open>notchless\<close>) is not at its own notch.  The first encoded
  character moves the rightmost rotor to 16 and leaves the other two where they were; the
  second moves the rightmost rotor to 17 and the middle rotor one position further, and
  leaves the left rotor.
\<close>

theorem double_stepping:
  assumes "rotorsList m = [L, M, R]"
    and "currentPos R = Some 15"
    and "Some CHR ''Q'' \<in> set (notch R)"
    and "Some CHR ''P'' \<notin> set (notch R)"
    and "currentPos M = Some pm"
    and "\<not> at_notch M"
    and "rotorType M \<noteq> ''notchless''"
    and "fullEncode m s1 = Inr (o1, m1)"
    and "fullEncode m1 s2 = Inr (o2, m2)"
  shows "map currentPos (rotorsList m1) = [currentPos L, Some pm, Some 16]
       \<and> map currentPos (rotorsList m2) = [currentPos L, Some ((pm + 1) mod 26), Some 17]"
proof -
  from fullEncode_Inr [OF assms(8)] assms(1) obtain rs1 where
    rs1: "turnRotors [L, M, R] = Inr rs1" "rotorsList m1 = rs1" by auto
  have v1: "\<forall>x\<in>set ([] @ [L, M, R]). valid_pos x"
    using turnRotors_Inr_valid [OF rs1(1)] by simp
  have nR: "\<not> at_notch R"
    using assms(2,4) by (simp add: at_notch_def generic_16)
  have first: "rs1 = [L, M, stepped R]"
    using turnRotors_three [OF v1] rs1(1) nR assms(6) by simp
  from fullEncode_Inr [OF assms(9)] rs1(2) first obtain rs2 where
    rs2: "turnRotors [L, M, stepped R] = Inr rs2" "rotorsList m2 = rs2" by auto
  have v2: "\<forall>x\<in>set ([] @ [L, M, stepped R]). valid_pos x"
    using turnRotors_Inr_valid [OF rs2(1)] by simp
  have pR: "currentPos (stepped R) = Some 16"
    using currentPos_stepped [OF assms(2)] by simp
  have aR: "at_notch (stepped R)"
    using assms(3) pR by (simp add: at_notch_def generic_16)
  have second: "rs2 = [L, stepped M, stepped (stepped R)]"
    using turnRotors_three [OF v2] rs2(1) aR assms(6,7)
    by (simp add: notchlessToTheRight_3)
  have "currentPos (stepped (stepped R)) = Some 17"
    using currentPos_stepped [OF pR] by simp
  then show ?thesis
    using first second rs1(2) rs2(2) pR assms(5) by (simp add: currentPos_stepped)
qed


theorem double_stepping_witness:
  "fullEncode (stepping_example 0 0 15) ''A'' = Inr (''J'', stepping_example 0 0 16)
   \<and> fullEncode (stepping_example 0 0 16) ''A'' = Inr (''J'', stepping_example 0 1 17)
   \<and> map currentPos (rotorsList (stepping_example 0 0 16)) = [Some 0, Some 0, Some 16]
   \<and> map currentPos (rotorsList (stepping_example 0 1 17)) = [Some 0, Some ((0 + 1) mod 26), Some 17]"
proof -
  let ?L = "rotorsList (stepping_example 0 0 15) ! 0"
  let ?M = "rotorsList (stepping_example 0 0 15) ! 1"
  let ?R = "rotorsList (stepping_example 0 0 15) ! 2"
  have 1: "rotorsList (stepping_example 0 0 15) = [?L, ?M, ?R]"
    by (simp add: stepping_example_def)
  have 2: "currentPos ?R = Some 15" "Some CHR ''Q'' \<in> set (notch ?R)" "Some CHR ''P'' \<notin> set (notch ?R)"
    "currentPos ?M = Some 0" "\<not> at_notch ?M" "rotorType ?M \<noteq> ''notchless''"
    by (simp_all add: stepping_example_def at_notch_def genericMapping_def)
  have 3: "fullEncode (stepping_example 0 0 15) ''A'' = Inr (''J'', stepping_example 0 0 16)"
    by code_simp
  have 4: "fullEncode (stepping_example 0 0 16) ''A'' = Inr (''J'', stepping_example 0 1 17)"
    by code_simp
  from double_stepping [OF 1 2 3 4] 3 4 show ?thesis
    by (simp add: stepping_example_def)
qed

section \<open>Reciprocity\<close>

text \<open>
  Claim C2.  In a machine with at least three rotors that are all wired as the alphabet and
  notch-less (any positions and ring settings), an empty plugboard and a reflector whose
  wiring sends A to B and B to A (as every full pairing with the pair A, B does), a call
  of \<open>fullEncode\<close> on A returns B, and on the same machine state a call on B returns A;
  either call advances the rightmost rotor and nothing else.
\<close>

theorem reciprocity:
  assumes "3 \<le> length (rotorsList m)"
    and "list_all identity_notchless (rotorsList m)"
    and "plugBoard m = Some pb" and "plugLeadsLetters pb = []"
    and "reflector m = Some rf" and "rotorType rf = ''reflector''"
    and "2 \<le> length (mapping rf)"
    and "mapping rf ! 0 = CHR ''B''" and "mapping rf ! 1 = CHR ''A''"
  shows "fullEncode m ''A'' =
           Inr (''B'', m\<lparr>rotorsList := butlast (rotorsList m) @ [stepped (last (rotorsList m))]\<rparr>)
       \<and> fullEncode m ''B'' =
           Inr (''A'', m\<lparr>rotorsList := butlast (rotorsList m) @ [stepped (last (rotorsList m))]\<rparr>)"
proof -
  let ?rs = "butlast (rotorsList m) @ [stepped (last (rotorsList m))]"
  have ne: "rotorsList m \<noteq> []" using assms(1) by auto
  have turn: "turnRotors (rotorsList m) = Inr ?rs"
    using assms(1,2) by (rule turnRotors_identity)
  have "list_all identity_notchless (butlast (rotorsList m))"
    using assms(2) by (auto simp: list_all_iff dest: in_set_butlastD)
  moreover have "identity_notchless (stepped (last (rotorsList m)))"
    using assms(2) ne by (intro identity_notchless_stepped) (simp add: list_all_iff)
  ultimately have all: "list_all identity_notchless ?rs" "list_all identity_notchless (rev ?rs)"
    by simp_all
  have pbA: "Plugboard_encode pb [CHR ''a''] = Inr CHR ''A''" "Plugboard_encode pb [CHR ''b''] = Inr CHR ''B''"
       "Plugboard_encode pb [CHR ''A''] = Inr CHR ''A''" "Plugboard_encode pb [CHR ''B''] = Inr CHR ''B''"
    using assms(4) by (simp_all add: Plugboard_encode_unwired char_facts)
  have fw: "for_loop (\<lambda>r e. Rotor_encode r [e] ''right'') (rev ?rs) CHR ''A'' = Inr CHR ''A''"
           "for_loop (\<lambda>r e. Rotor_encode r [e] ''right'') (rev ?rs) CHR ''B'' = Inr CHR ''B''"
    using identity_notchless_loop [OF all(2), of "CHR ''A''" "''right''"]
      identity_notchless_loop [OF all(2), of "CHR ''B''" "''right''"]
    by (simp_all add: char_facts)
  have len: "0 < length (mapping rf)" "1 < length (mapping rf)" using assms(7) by auto
  have rfl: "Rotor_encode rf [CHR ''A''] ''left'' = Inr CHR ''b''"
            "Rotor_encode rf [CHR ''B''] ''left'' = Inr CHR ''a''"
    using reflector_encode [OF assms(6), of "CHR ''A''" 0 "''left''"]
      reflector_encode [OF assms(6), of "CHR ''B''" 1 "''left''"] assms(8,9) len
    by (simp_all add: char_facts generic_0_1)
  have bw: "for_loop (\<lambda>r e. Rotor_encode r [e] ''left'') ?rs CHR ''b'' = Inr CHR ''B''"
           "for_loop (\<lambda>r e. Rotor_encode r [e] ''left'') ?rs CHR ''a'' = Inr CHR ''A''"
    using identity_notchless_loop [OF all(1), of "CHR ''b''" "''left''"]
      identity_notchless_loop [OF all(1), of "CHR ''a''" "''left''"]
    by (simp_all add: char_facts)
  show ?thesis
    using assms(3,5) turn pbA fw rfl bw
    by (simp add: fullEncode_def validator_single char_facts)
qed

theorem reciprocity_witness:
  "fullEncode (identity_example 25) ''A'' = Inr (''B'', identity_example 0)
   \<and> fullEncode (identity_example 25) ''B'' = Inr (''A'', identity_example 0)"
proof -
  have "list_all identity_notchless (rotorsList (identity_example 25))"
    by (simp add: identity_example_def identity_notchless_def genericMapping_def)
  from reciprocity [of "identity_example 25"
      "\<lparr>plugLeadsLetters = [], plugLeads = [], numPlugLeads = 10\<rparr>"
      "\<lparr>rotorType = ''reflector'', name = ''custom'', mapping = ''BADCFEHGJILKNMPORQTSVUXWZY'',
        ringSetting = None, initialPos = None, currentPos = None, notch = [None]\<rparr>", OF _ this]
  show ?thesis
    by (simp add: identity_example_def stepped_def)
qed

end
